theory Spec2Isabelle
  imports Complex_Main "HOL-Library.List_Lexorder" "HOL-Library.Char_ord"
begin

section \<open>The interactive map of \<^verbatim>\<open>tasks/dvc_ex4_23756554.py\<close>\<close>

text \<open>
  The script keeps its view parameters in module-level variables (\<^verbatim>\<open>year\<close>,
  \<^verbatim>\<open>city\<close>, \<^verbatim>\<open>market_cap_lower\<close>), derives two data frames from the loaded table
  \<^verbatim>\<open>us_company_map\<close> with \<^verbatim>\<open>create_df\<close>, and pushes them into the data sources
  of two plots from four callbacks: \<^verbatim>\<open>tap_update\<close>, \<^verbatim>\<open>slider_update\<close>,
  \<^verbatim>\<open>update_year\<close> and \<^verbatim>\<open>play\<close>.

  Numbers: a cell of a float column is a \<open>real option\<close>, \<open>None\<close> being pandas' missing
  value NaN; sums and logarithms are taken over the reals, so the rounding error of binary
  floating point is not part of the model. NaN and the two infinities are kept apart from
  the finite values (type \<open>npfloat\<close>), because converting them to an integer raises.
\<close>

subsection \<open>Exceptions and numbers\<close>

datatype error = KeyError | IndexError | ValueError | OverflowError | TypeError

datatype npfloat = Fin real | NegInf | PosInf | NaN

text \<open>\<^verbatim>\<open>np.log10\<close>: NaN below zero, minus infinity at zero.\<close>

definition np_log10 :: "real \<Rightarrow> npfloat" where
  "np_log10 v = (if v < 0 then NaN else if v = 0 then NegInf else Fin (log 10 v))"

text \<open>\<^verbatim>\<open>np.log1p(e) * 3\<close>, with a missing \<^verbatim>\<open>e\<close> giving NaN.\<close>

definition np_log1p_times3 :: "real option \<Rightarrow> npfloat" where
  "np_log1p_times3 e =
     (case e of
        None \<Rightarrow> NaN
      | Some v \<Rightarrow> if v < - 1 then NaN else if v = - 1 then NegInf else Fin (ln (1 + v) * 3))"

text \<open>Rounding to the nearest integer, a tie going to the even neighbour.\<close>

definition round_half_even :: "real \<Rightarrow> int" where
  "round_half_even v =
     (let f = \<lfloor>v\<rfloor>; d = v - of_int f
      in if d < 1 / 2 then f else if 1 / 2 < d then f + 1 else if even f then f else f + 1)"

text \<open>\<^verbatim>\<open>round(series, 2)\<close>: two decimals, NaN and infinities unchanged.\<close>

fun np_round2 :: "npfloat \<Rightarrow> npfloat" where
  "np_round2 (Fin v) = Fin (of_int (round_half_even (v * 100)) / 100)"
| "np_round2 NegInf = NegInf"
| "np_round2 PosInf = PosInf"
| "np_round2 NaN = NaN"

text \<open>\<^verbatim>\<open>int(v)\<close> truncates toward zero and raises on NaN and on an infinity.\<close>

fun py_int :: "npfloat \<Rightarrow> error + int" where
  "py_int (Fin v) = Inr (if 0 \<le> v then \<lfloor>v\<rfloor> else \<lceil>v\<rceil>)"
| "py_int NegInf = Inl OverflowError"
| "py_int PosInf = Inl OverflowError"
| "py_int NaN = Inl ValueError"

text \<open>\<^verbatim>\<open>int(round(v))\<close> with no digits: the nearest integer, the same exceptions.\<close>

fun py_int_round :: "npfloat \<Rightarrow> error + int" where
  "py_int_round (Fin v) = Inr (round_half_even v)"
| "py_int_round NegInf = Inl OverflowError"
| "py_int_round PosInf = Inl OverflowError"
| "py_int_round NaN = Inl ValueError"

subsection \<open>The palette\<close>

text \<open>
  \<^verbatim>\<open>Sunset[8]\<close> is a tuple of eight colours of the plotting library; a colour is
  represented by its position in the tuple. Indexing the tuple follows Python: a negative
  index counts from the end, anything else outside the tuple raises \<^verbatim>\<open>IndexError\<close>.
\<close>

datatype color = Sunset8 nat

definition Sunset_8 :: "int \<Rightarrow> error + color" where
  "Sunset_8 i =
     (if 0 \<le> i \<and> i < 8 then Inr (Sunset8 (nat i))
      else if - 8 \<le> i \<and> i < 0 then Inr (Sunset8 (nat (8 + i)))
      else Inl IndexError)"

subsection \<open>Tables\<close>

text \<open>
  The loaded table: for every year of \<open>year_columns\<close> there are the columns
  \<^verbatim>\<open>Market Cap <year>\<close> and \<^verbatim>\<open>Employees <year>\<close>; a row gives their cells as
  functions of the year. Every row has a city; the symbol, the coordinates and the cells
  of the year columns may be missing.
\<close>

record src_row =
  src_Symbol :: "string option"
  src_City :: string
  src_x :: "real option"
  src_y :: "real option"
  src_Market_Cap :: "int \<Rightarrow> real option"
  src_Employees :: "int \<Rightarrow> real option"

record source_table =
  year_columns :: "int list"
  src_rows :: "src_row list"

text \<open>A row of \<^verbatim>\<open>df0\<close>, the working copy for one year.\<close>

record df0_row =
  Symbol :: "string option"
  City :: string
  x_col :: "real option"
  y_col :: "real option"
  Market_Cap :: "real option"
  Employees :: "real option"

text \<open>A row of the frame of the subplot: a row of \<^verbatim>\<open>df0\<close> and two more columns.\<close>

record sub_row = df0_row +
  c_col :: color
  circle_size :: npfloat

text \<open>A row of the frame of the main plot: one city.\<close>

record main_row =
  m_City :: string
  m_Market_Cap :: real
  m_Employees :: real
  m_x :: "real option"
  m_y :: "real option"
  m_Symbol :: nat
  m_col :: npfloat
  m_c_col :: color
  m_circle_size :: npfloat

subsection \<open>\<^verbatim>\<open>create_df\<close>\<close>

text \<open>Lines 97-103: the columns of the year, copied and renamed; a year without columns
  raises \<^verbatim>\<open>KeyError\<close>.\<close>

definition project_row :: "int \<Rightarrow> src_row \<Rightarrow> df0_row" where
  "project_row yr r =
     \<lparr>Symbol = src_Symbol r, City = src_City r, x_col = src_x r, y_col = src_y r,
      Market_Cap = src_Market_Cap r yr, Employees = src_Employees r yr\<rparr>"

definition project_year :: "source_table \<Rightarrow> int \<Rightarrow> error + df0_row list" where
  "project_year tbl yr =
     (if yr \<in> set (year_columns tbl) then Inr (map (project_row yr) (src_rows tbl))
      else Inl KeyError)"

text \<open>Line 107: the comparison is false on a missing market cap, so such a row keeps its
  symbol and its employees.\<close>

definition below :: "real option \<Rightarrow> real \<Rightarrow> bool" where
  "below c lower = (case c of None \<Rightarrow> False | Some v \<Rightarrow> v < lower)"

definition mask_row :: "real \<Rightarrow> df0_row \<Rightarrow> df0_row" where
  "mask_row lower r =
     (if below (Market_Cap r) lower
      then r\<lparr>Symbol := None, Market_Cap := None, Employees := None\<rparr>
      else r)"

definition masked_df0 :: "source_table \<Rightarrow> int \<Rightarrow> real \<Rightarrow> error + df0_row list" where
  "masked_df0 tbl yr lower =
     (case project_year tbl yr of
        Inl e \<Rightarrow> Inl e
      | Inr df0 \<Rightarrow> Inr (map (mask_row lower) df0))"

text \<open>The aggregations of \<^verbatim>\<open>groupby('City').agg\<close>: \<^verbatim>\<open>sum\<close> and \<^verbatim>\<open>mean\<close> skip
  missing cells (the sum of none is 0, the mean of none is missing), \<^verbatim>\<open>count\<close> counts
  the cells that are present. The groups come sorted by their key.\<close>

definition present :: "'a option list \<Rightarrow> 'a list" where
  "present cs = map the (filter (\<lambda>c. c \<noteq> None) cs)"

definition agg_sum :: "real option list \<Rightarrow> real" where
  "agg_sum cs = sum_list (present cs)"

definition agg_mean :: "real option list \<Rightarrow> real option" where
  "agg_mean cs =
     (if present cs = [] then None
      else Some (sum_list (present cs) / of_nat (length (present cs))))"

definition agg_count :: "'a option list \<Rightarrow> nat" where
  "agg_count cs = length (present cs)"

definition group_keys :: "df0_row list \<Rightarrow> string list" where
  "group_keys df0 = sort (remdups (map City df0))"

text \<open>Lines 128-133 for one group: \<^verbatim>\<open>col\<close>, then the palette entry at
  \<^verbatim>\<open>max(0, int(col))\<close>.\<close>

definition main_col :: "real \<Rightarrow> npfloat" where
  "main_col tot = np_round2 (np_log10 (tot + 0.0002))"

definition main_c_col :: "npfloat \<Rightarrow> error + color" where
  "main_c_col c = (case py_int c of Inl e \<Rightarrow> Inl e | Inr i \<Rightarrow> Sunset_8 (max 0 i))"

definition agg_group :: "df0_row list \<Rightarrow> string \<Rightarrow> error + main_row" where
  "agg_group df0 k =
     (let g = filter (\<lambda>r. City r = k) df0;
          tot = agg_sum (map Market_Cap g);
          emp = agg_sum (map Employees g)
      in case main_c_col (main_col tot) of
           Inl e \<Rightarrow> Inl e
         | Inr c \<Rightarrow>
             Inr \<lparr>m_City = k, m_Market_Cap = tot, m_Employees = emp,
                  m_x = agg_mean (map x_col g), m_y = agg_mean (map y_col g),
                  m_Symbol = agg_count (map Symbol g), m_col = main_col tot,
                  m_c_col = c, m_circle_size = np_log1p_times3 (Some emp)\<rparr>)"

text \<open>The loop of lines 130-131 runs over the groups in order and stops at the first
  exception.\<close>

fun agg_groups :: "df0_row list \<Rightarrow> string list \<Rightarrow> error + main_row list" where
  "agg_groups df0 [] = Inr []"
| "agg_groups df0 (k # ks) =
     (case agg_group df0 k of
        Inl e \<Rightarrow> Inl e
      | Inr r \<Rightarrow> (case agg_groups df0 ks of Inl e \<Rightarrow> Inl e | Inr rs \<Rightarrow> Inr (r # rs)))"

text \<open>\<^verbatim>\<open>create_df(year, city, market_cap_lower)\<close>, the branch \<^verbatim>\<open>main=True\<close>; the
  city is not read there.\<close>

definition create_df_main :: "source_table \<Rightarrow> int \<Rightarrow> real \<Rightarrow> error + main_row list" where
  "create_df_main tbl yr lower =
     (case masked_df0 tbl yr lower of
        Inl e \<Rightarrow> Inl e
      | Inr df0 \<Rightarrow> agg_groups df0 (group_keys df0))"

text \<open>\<^verbatim>\<open>create_df(year, city, market_cap_lower, main=False)\<close>, lines 137-145: the rows
  of the city, all with the colour at \<^verbatim>\<open>max(0, int(round(log10(sum + 0.0002))))\<close>.\<close>

definition sub_c_col :: "real \<Rightarrow> error + color" where
  "sub_c_col tot =
     (case py_int_round (np_log10 (tot + 0.0002)) of
        Inl e \<Rightarrow> Inl e
      | Inr i \<Rightarrow> Sunset_8 (max 0 i))"

definition sub_row_of :: "color \<Rightarrow> df0_row \<Rightarrow> sub_row" where
  "sub_row_of c r =
     df0_row.extend r
       (sub_row.fields c (np_log1p_times3 (Employees r)))"

definition create_df_sub ::
  "source_table \<Rightarrow> int \<Rightarrow> string \<Rightarrow> real \<Rightarrow> error + sub_row list" where
  "create_df_sub tbl yr cty lower =
     (case masked_df0 tbl yr lower of
        Inl e \<Rightarrow> Inl e
      | Inr df0 \<Rightarrow>
          (let df1 = filter (\<lambda>r. City r = cty) df0
           in case sub_c_col (agg_sum (map Market_Cap df1)) of
                Inl e \<Rightarrow> Inl e
              | Inr c \<Rightarrow> Inr (map (sub_row_of c) df1)))"

subsection \<open>Lines 97-107 on the frames in memory\<close>

text \<open>
  Lines 97-107 work on data-frame objects: the selection of line 97 makes a new frame,
  \<^verbatim>\<open>.copy()\<close> another one, and the renaming of line 100 (\<^verbatim>\<open>inplace=True\<close>) and the
  assignment of line 107 (\<^verbatim>\<open>df0.loc[...] = np.nan\<close>) write into the frame that
  \<^verbatim>\<open>df0\<close> refers to. Here a frame is a list of named columns of cells, the memory is
  the list of the frames that exist, and a frame is referred to by its position in the
  memory, so that a write through a reference changes the frame for everyone who holds
  the reference.
\<close>

datatype cell = Str string | Num real | Missing

datatype column =
  Col_Symbol | Col_City | Col_x | Col_y
  | Col_Market_Cap_year int | Col_Employees_year int
  | Col_Market_Cap | Col_Employees

type_synonym frame = "(column \<times> cell list) list"

type_synonym memory = "frame list"

text \<open>\<^verbatim>\<open>df[[c1, c2, ...]]\<close>: the listed columns, \<^verbatim>\<open>KeyError\<close> when one is not there.\<close>

fun getitem_columns :: "frame \<Rightarrow> column list \<Rightarrow> error + frame" where
  "getitem_columns f [] = Inr []"
| "getitem_columns f (c # cs) =
     (case map_of f c of
        None \<Rightarrow> Inl KeyError
      | Some cells \<Rightarrow>
          (case getitem_columns f cs of Inl e \<Rightarrow> Inl e | Inr g \<Rightarrow> Inr ((c, cells) # g)))"

text \<open>The renaming of lines 100-101.\<close>

definition year_names :: "int \<Rightarrow> column \<Rightarrow> column" where
  "year_names yr c =
     (if c = Col_Market_Cap_year yr then Col_Market_Cap
      else if c = Col_Employees_year yr then Col_Employees
      else c)"

definition rename_columns :: "(column \<Rightarrow> column) \<Rightarrow> frame \<Rightarrow> frame" where
  "rename_columns ren f = map (\<lambda>(c, cells). (ren c, cells)) f"

text \<open>\<^verbatim>\<open>df0['Market Cap'] < market_cap_lower\<close>: false on a missing cell; comparing a
  string with a number raises \<^verbatim>\<open>TypeError\<close>.\<close>

definition is_Str :: "cell \<Rightarrow> bool" where
  "is_Str c = (case c of Str s \<Rightarrow> True | Num v \<Rightarrow> False | Missing \<Rightarrow> False)"

definition cell_below :: "real \<Rightarrow> cell \<Rightarrow> bool" where
  "cell_below lower c = (case c of Num v \<Rightarrow> v < lower | Str s \<Rightarrow> False | Missing \<Rightarrow> False)"

definition below_mask :: "frame \<Rightarrow> real \<Rightarrow> error + bool list" where
  "below_mask f lower =
     (case map_of f Col_Market_Cap of
        None \<Rightarrow> Inl KeyError
      | Some cells \<Rightarrow>
          if list_ex is_Str cells then Inl TypeError
          else Inr (map (cell_below lower) cells))"

text \<open>\<^verbatim>\<open>df.loc[mask, [c1, ...]] = np.nan\<close>: in the listed columns the cells of the rows
  that the mask selects become missing.\<close>

definition blank :: "bool list \<Rightarrow> cell list \<Rightarrow> cell list" where
  "blank m cells = map (\<lambda>(b, c). if b then Missing else c) (zip m cells)"

definition loc_assign_nan :: "bool list \<Rightarrow> column list \<Rightarrow> frame \<Rightarrow> error + frame" where
  "loc_assign_nan m cs f =
     (if list_all (\<lambda>c. map_of f c \<noteq> None) cs
      then Inr (map (\<lambda>(c, cells). (c, if c \<in> set cs then blank m cells else cells)) f)
      else Inl KeyError)"

text \<open>A new frame gets the next free position.\<close>

definition new_frame :: "memory \<Rightarrow> frame \<Rightarrow> nat \<times> memory" where
  "new_frame mem f = (length mem, mem @ [f])"

text \<open>
  Lines 97-107 with the loaded table at position \<open>src\<close>: the selection (a new frame),
  its copy \<^verbatim>\<open>df0\<close> (a new frame), the renaming written into \<^verbatim>\<open>df0\<close>, the mask read
  from \<^verbatim>\<open>df0\<close>, and the assignment written into \<^verbatim>\<open>df0\<close>. The result is the position
  of \<^verbatim>\<open>df0\<close>, or the exception, and the memory afterwards.
\<close>

definition create_df_frames :: "memory \<Rightarrow> nat \<Rightarrow> int \<Rightarrow> real \<Rightarrow> (error + nat) \<times> memory" where
  "create_df_frames mem src yr lower =
     (case getitem_columns (mem ! src)
             [Col_Symbol, Col_City, Col_x, Col_y,
              Col_Market_Cap_year yr, Col_Employees_year yr] of
        Inl e \<Rightarrow> (Inl e, mem)
      | Inr sel \<Rightarrow>
          (let (a1, mem1) = new_frame mem sel;
               (df0, mem2) = new_frame mem1 (mem1 ! a1);
               mem3 = mem2[df0 := rename_columns (year_names yr) (mem2 ! df0)]
           in case below_mask (mem3 ! df0) lower of
                Inl e \<Rightarrow> (Inl e, mem3)
              | Inr m \<Rightarrow>
                  (case loc_assign_nan m [Col_Symbol, Col_Market_Cap, Col_Employees]
                          (mem3 ! df0) of
                     Inl e \<Rightarrow> (Inl e, mem3)
                   | Inr f \<Rightarrow> (Inr df0, mem3[df0 := f]))))"

text \<open>Any number of recomputations, each with its year and lower bound, one after the
  other on the same memory.\<close>

definition recompute :: "nat \<Rightarrow> memory \<Rightarrow> (int \<times> real) list \<Rightarrow> memory" where
  "recompute src mem calls =
     foldl (\<lambda>m (yr, lower). snd (create_df_frames m src yr lower)) mem calls"

text \<open>The loaded table and a working copy as frames of cells.\<close>

definition str_cell :: "string option \<Rightarrow> cell" where
  "str_cell c = (case c of None \<Rightarrow> Missing | Some s \<Rightarrow> Str s)"

definition num_cell :: "real option \<Rightarrow> cell" where
  "num_cell c = (case c of None \<Rightarrow> Missing | Some v \<Rightarrow> Num v)"

definition year_columns_of :: "src_row list \<Rightarrow> int \<Rightarrow> frame" where
  "year_columns_of rs yr =
     [(Col_Market_Cap_year yr, map (\<lambda>r. num_cell (src_Market_Cap r yr)) rs),
      (Col_Employees_year yr, map (\<lambda>r. num_cell (src_Employees r yr)) rs)]"

definition frame_of_table :: "source_table \<Rightarrow> frame" where
  "frame_of_table tbl =
     [(Col_Symbol, map (\<lambda>r. str_cell (src_Symbol r)) (src_rows tbl)),
      (Col_City, map (\<lambda>r. Str (src_City r)) (src_rows tbl)),
      (Col_x, map (\<lambda>r. num_cell (src_x r)) (src_rows tbl)),
      (Col_y, map (\<lambda>r. num_cell (src_y r)) (src_rows tbl))]
     @ concat (map (year_columns_of (src_rows tbl)) (year_columns tbl))"

definition frame_of_df0 :: "df0_row list \<Rightarrow> frame" where
  "frame_of_df0 d =
     [(Col_Symbol, map (\<lambda>r. str_cell (Symbol r)) d),
      (Col_City, map (\<lambda>r. Str (City r)) d),
      (Col_x, map (\<lambda>r. num_cell (x_col r)) d),
      (Col_y, map (\<lambda>r. num_cell (y_col r)) d),
      (Col_Market_Cap, map (\<lambda>r. num_cell (Market_Cap r)) d),
      (Col_Employees, map (\<lambda>r. num_cell (Employees r)) d)]"

text \<open>The selection of line 97 on the loaded table, as a frame of cells.\<close>

definition selection :: "source_table \<Rightarrow> int \<Rightarrow> frame" where
  "selection tbl yr =
     [(Col_Symbol, map (\<lambda>r. str_cell (src_Symbol r)) (src_rows tbl)),
      (Col_City, map (\<lambda>r. Str (src_City r)) (src_rows tbl)),
      (Col_x, map (\<lambda>r. num_cell (src_x r)) (src_rows tbl)),
      (Col_y, map (\<lambda>r. num_cell (src_y r)) (src_rows tbl)),
      (Col_Market_Cap_year yr, map (\<lambda>r. num_cell (src_Market_Cap r yr)) (src_rows tbl)),
      (Col_Employees_year yr, map (\<lambda>r. num_cell (src_Employees r yr)) (src_rows tbl))]"

subsection \<open>The module-level state\<close>

text \<open>
  The globals of the script and the attributes of the widgets it writes. \<open>main_df\<close> and
  \<open>sub_df\<close> are the module-level frames of lines 150-151; \<open>main_source\<close> and
  \<open>sub_source\<close> are the \<^verbatim>\<open>data\<close> of the data sources of the main plot and of the
  subplot (both glyphs of the subplot share one source); \<open>label_text\<close> is the year shown
  by \<^verbatim>\<open>label.text\<close> and \<open>subplot_title\<close> the city and year of the subplot's title.
  The two button labels are kept without their glyphs. \<open>callback\<close> is the global of line
  468; \<open>session_callbacks\<close> are the periodic callbacks registered with the document,
  \<open>next_handle\<close> the handle the document gives out next.
\<close>

record state =
  us_company_map :: source_table
  year :: int
  city :: string
  market_cap_lower :: real
  main_df :: "main_row list"
  sub_df :: "sub_row list"
  main_source :: "main_row list"
  sub_source :: "sub_row list"
  label_text :: int
  subplot_title :: "string \<times> int"
  btn_label :: string
  callback :: "nat option"
  session_callbacks :: "nat list"
  next_handle :: nat

definition label_play :: string where
  "label_play = ''Play''"

definition label_pause :: string where
  "label_pause = ''Pause''"

text \<open>Loading the module, lines 81-83, 150-151, 248-265, 360, 429-434 and 468. Line 284
  reads the first row of the initial \<^verbatim>\<open>sub_df\<close> and raises on an empty frame.\<close>

definition init :: "source_table \<Rightarrow> error + state" where
  "init tbl =
     (case create_df_main tbl 2022 0 of
        Inl e \<Rightarrow> Inl e
      | Inr mdf \<Rightarrow>
          (case create_df_sub tbl 2022 ''San Jose'' 0 of
             Inl e \<Rightarrow> Inl e
           | Inr sdf \<Rightarrow>
               (case sdf of
                  [] \<Rightarrow> Inl IndexError
                | r # _ \<Rightarrow>
                    Inr \<lparr>us_company_map = tbl, year = 2022, city = ''San Jose'',
                         market_cap_lower = 0, main_df = mdf, sub_df = sdf,
                         main_source = mdf, sub_source = sdf, label_text = 2022,
                         subplot_title = (City r, 2022), btn_label = label_play,
                         callback = None, session_callbacks = [], next_handle = 0\<rparr>)))"

subsection \<open>The callbacks\<close>

text \<open>
  A callback returns the exception it raised, if any, and the state it leaves: what it
  assigned before raising stays assigned.

  \<^verbatim>\<open>tap_update\<close>, lines 375-385. \<^verbatim>\<open>new\<close> is the list of selected row indices; the
  row is read from the module-level \<^verbatim>\<open>main_df\<close>, which no callback reassigns (the
  \<^verbatim>\<open>main_df\<close> of the other callbacks is a local variable).
\<close>

definition tap_update :: "nat list \<Rightarrow> state \<Rightarrow> error option \<times> state" where
  "tap_update new s =
     (case new of
        [] \<Rightarrow> (None, s)
      | i # _ \<Rightarrow>
          if i < length (main_df s) then
            (let s1 = s\<lparr>city := m_City (main_df s ! i)\<rparr>
             in case create_df_sub (us_company_map s1) (year s1) (city s1)
                       (market_cap_lower s1) of
                  Inl e \<Rightarrow> (Some e, s1)
                | Inr sdf \<Rightarrow>
                    (None, s1\<lparr>sub_source := sdf, subplot_title := (city s1, year s1)\<rparr>))
          else (Some IndexError, s))"

text \<open>\<^verbatim>\<open>slider_update\<close>, lines 409-416.\<close>

definition slider_update :: "real \<Rightarrow> state \<Rightarrow> error option \<times> state" where
  "slider_update new s =
     (let s1 = s\<lparr>market_cap_lower := new\<rparr>
      in case create_df_main (us_company_map s1) (year s1) (market_cap_lower s1) of
           Inl e \<Rightarrow> (Some e, s1)
         | Inr mdf \<Rightarrow>
             (let s2 = s1\<lparr>main_source := mdf\<rparr>
              in case create_df_sub (us_company_map s2) (year s2) (city s2)
                        (market_cap_lower s2) of
                   Inl e \<Rightarrow> (Some e, s2)
                 | Inr sdf \<Rightarrow> (None, s2\<lparr>sub_source := sdf\<rparr>)))"

text \<open>Lines 446-447: a year past 2022 goes back to 2019.\<close>

definition wrap_year :: "int \<Rightarrow> int" where
  "wrap_year y = (if y > 2022 then 2019 else y)"

text \<open>\<^verbatim>\<open>update_year\<close>, lines 443-454.\<close>

definition update_year :: "state \<Rightarrow> error option \<times> state" where
  "update_year s =
     (let y = wrap_year (year s + 1);
          s1 = s\<lparr>year := y, label_text := y\<rparr>
      in case create_df_main (us_company_map s1) (year s1) (market_cap_lower s1) of
           Inl e \<Rightarrow> (Some e, s1)
         | Inr mdf \<Rightarrow>
             (let s2 = s1\<lparr>main_source := mdf\<rparr>
              in case create_df_sub (us_company_map s2) (year s2) (city s2)
                        (market_cap_lower s2) of
                   Inl e \<Rightarrow> (Some e, s2)
                 | Inr sdf \<Rightarrow>
                     (None, s2\<lparr>sub_source := sdf, subplot_title := (city s2, year s2)\<rparr>)))"

text \<open>
  \<^verbatim>\<open>play\<close>, lines 469-477. \<^verbatim>\<open>add_periodic_callback\<close> registers a new callback with
  the document and returns its handle; \<^verbatim>\<open>remove_periodic_callback\<close> raises
  \<^verbatim>\<open>ValueError\<close> on a handle that is not registered.
\<close>

definition play :: "state \<Rightarrow> error option \<times> state" where
  "play s =
     (if btn_label s = label_play then
        (None, s\<lparr>btn_label := label_pause,
                  callback := Some (next_handle s),
                  session_callbacks := next_handle s # session_callbacks s,
                  next_handle := Suc (next_handle s)\<rparr>)
      else
        (let s1 = s\<lparr>btn_label := label_play\<rparr>
         in case callback s1 of
              None \<Rightarrow> (Some ValueError, s1)
            | Some h \<Rightarrow>
                if h \<in> set (session_callbacks s1)
                then (None, s1\<lparr>session_callbacks := removeAll h (session_callbacks s1),
                               callback := None\<rparr>)
                else (Some ValueError, s1)))"

subsection \<open>Events\<close>

text \<open>The runtime calls one callback at a time: a tap with the selected indices, a
  slider change with the new value, a tick of the periodic callback, a click on the
  button.\<close>

datatype event = Tap "nat list" | Slide real | Tick | Click

fun step :: "event \<Rightarrow> state \<Rightarrow> error option \<times> state" where
  "step (Tap new) s = tap_update new s"
| "step (Slide v) s = slider_update v s"
| "step Tick s = update_year s"
| "step Click s = play s"

text \<open>The state after a sequence of events, whether or not a callback raised.\<close>

fun run :: "event list \<Rightarrow> state \<Rightarrow> state" where
  "run [] s = s"
| "run (ev # evs) s = run evs (snd (step ev s))"


text \<open>The states the script can be in: the one after loading, and the one after any
  callback from such a state.\<close>

inductive reachable :: "source_table \<Rightarrow> state \<Rightarrow> bool" for tbl where
  loaded: "init tbl = Inr s \<Longrightarrow> reachable tbl s"
| after: "reachable tbl s \<Longrightarrow> reachable tbl (snd (step ev s))"

subsection \<open>Tables to run the script on\<close>

text \<open>A company with a symbol, at the origin, with the same market cap and number of
  employees in every year.\<close>

definition company :: "string \<Rightarrow> string \<Rightarrow> real option \<Rightarrow> real option \<Rightarrow> src_row" where
  "company smb cty cap emp =
     \<lparr>src_Symbol = Some smb, src_City = cty, src_x = Some 0, src_y = Some 0,
      src_Market_Cap = (\<lambda>yr. cap), src_Employees = (\<lambda>yr. emp)\<rparr>"

definition table_of :: "src_row list \<Rightarrow> source_table" where
  "table_of rs = \<lparr>year_columns = [2019, 2020, 2021, 2022], src_rows = rs\<rparr>"

text \<open>Two cities, one of them the city selected at loading.\<close>

definition demo_map :: source_table where
  "demo_map =
     table_of [company ''CSCO'' ''San Jose'' (Some 200) (Some 80000),
               company ''AAPL'' ''Cupertino'' (Some 2000) (Some 150000)]"

text \<open>The scenario of two cities with market caps 10 and 30, and 5.\<close>

definition scenario_map :: source_table where
  "scenario_map =
     table_of [company ''A1'' ''CityA'' (Some 10) (Some 100),
               company ''A2'' ''CityA'' (Some 30) (Some 300),
               company ''B1'' ''CityB'' (Some 5) (Some 50)]"


text \<open>A table in which one company has no market cap.\<close>

definition gap_map :: source_table where
  "gap_map =
     table_of [company ''A1'' ''CityA'' (Some 5) (Some 10),
               company ''B1'' ''CityB'' None (Some 7)]"


subsection \<open>Invariants of the state\<close>

text \<open>The button shows the play form, there is no handle and no periodic callback is
  registered, or it shows the pause form and the handle is the one registered callback.\<close>

definition toggle_inv :: "state \<Rightarrow> bool" where
  "toggle_inv s =
     ((btn_label s = label_play \<and> callback s = None \<and> session_callbacks s = []) \<or>
      (btn_label s = label_pause \<and>
       (\<exists>h. callback s = Some h \<and> session_callbacks s = [h])))"


section \<open>Rounding and logarithms\<close>

lemma rhe_floor_le: "\<lfloor>v\<rfloor> \<le> round_half_even v"
  by (simp add: round_half_even_def Let_def)

lemma rhe_le_floor1: "round_half_even v \<le> \<lfloor>v\<rfloor> + 1"
  by (simp add: round_half_even_def Let_def)

lemma rhe_lt_half:
  assumes "v < of_int b + 1 / 2"
  shows "round_half_even v \<le> b"
proof -
  have f: "of_int \<lfloor>v\<rfloor> \<le> v" by simp
  show ?thesis
  proof (cases "v - of_int \<lfloor>v\<rfloor> < 1 / 2")
    case True
    have "\<lfloor>v\<rfloor> < b + 1" using assms f by linarith
    with True show ?thesis by (simp add: round_half_even_def Let_def)
  next
    case False
    then have "\<lfloor>v\<rfloor> < b" using assms by linarith
    then show ?thesis by (simp add: round_half_even_def Let_def)
  qed
qed

lemma rhe_gt_half:
  assumes "of_int a - 1 / 2 < v"
  shows "a \<le> round_half_even v"
proof -
  have f: "v < of_int \<lfloor>v\<rfloor> + 1" by linarith
  show ?thesis
  proof (cases "1 / 2 < v - of_int \<lfloor>v\<rfloor>")
    case True
    have "a < \<lfloor>v\<rfloor> + 2" using assms f by linarith
    with True show ?thesis by (simp add: round_half_even_def Let_def)
  next
    case False
    then have "a < \<lfloor>v\<rfloor> + 1" using assms by linarith
    then show ?thesis by (simp add: round_half_even_def Let_def)
  qed
qed

lemma rhe_lower: "of_int a \<le> v \<Longrightarrow> a \<le> round_half_even v"
  by (rule rhe_gt_half) simp

lemma rhe_upper: "v \<le> of_int b \<Longrightarrow> round_half_even v \<le> b"
  by (rule rhe_lt_half) simp

lemma log10_ge: "10 ^ n \<le> v \<Longrightarrow> real n \<le> log 10 v"
proof -
  assume a: "(10::real) ^ n \<le> v"
  have "log 10 (10 ^ n) \<le> log 10 v" by (rule log_mono) (use a in simp_all)
  then show ?thesis by simp
qed

lemma log10_less: "0 < v \<Longrightarrow> v < 10 ^ n \<Longrightarrow> log 10 v < real n"
proof -
  assume a: "0 < v" "v < (10::real) ^ n"
  have "log 10 v < log 10 (10 ^ n)" by (rule log_less) (use a in simp_all)
  then show ?thesis by simp
qed

lemma log10_less_frac:
  assumes "0 < v" "v ^ q < 10 ^ p" "0 < q"
  shows "log 10 v < real p / real q"
proof -
  have "log 10 (v ^ q) < real p" using assms by (intro log10_less) simp_all
  moreover have "log 10 (v ^ q) = real q * log 10 v" using assms by (simp add: log_nat_power)
  ultimately show ?thesis using assms by (simp add: field_simps)
qed

lemma log10_gt_frac:
  assumes "0 < v" "10 ^ p < v ^ q" "0 < q"
  shows "real p / real q < log 10 v"
proof -
  have "log 10 (10 ^ p) < log 10 (v ^ q)" using assms by (intro log_less) simp_all
  moreover have "log 10 (v ^ q) = real q * log 10 v" using assms by (simp add: log_nat_power)
  ultimately show ?thesis using assms by (simp add: field_simps)
qed



lemma log10_gt: "10 ^ n < v \<Longrightarrow> real n < log 10 v"
proof -
  assume a: "(10::real) ^ n < v"
  have "log 10 (10 ^ n) < log 10 v" by (rule log_less) (use a in simp_all)
  then show ?thesis by simp
qed

lemma py_int_main_eq:
  assumes "10 ^ n \<le> v" "v ^ 4 < 10 ^ (4 * n + 3)"
  shows "py_int (np_round2 (np_log10 v)) = Inr (int n)"
proof -
  have vpos: "0 < v"
  proof -
    have "(0::real) < 10 ^ n" by simp
    with assms(1) show ?thesis by linarith
  qed
  define L where "L = log 10 v"
  define r where "r = round_half_even (L * 100)"
  have lo: "real n \<le> L" unfolding L_def using assms(1) by (rule log10_ge)
  have "L < real (4 * n + 3) / real 4"
    unfolding L_def using vpos assms(2) by (rule log10_less_frac) simp
  then have hi: "L < real n + 3 / 4" by simp
  have "real_of_int (int (100 * n)) \<le> L * 100" using lo by simp
  then have r1: "int (100 * n) \<le> r" unfolding r_def by (rule rhe_lower)
  have "L * 100 \<le> real_of_int (int (100 * n + 75))" using hi by simp
  then have r2: "r \<le> int (100 * n + 75)" unfolding r_def by (rule rhe_upper)
  have r0: "0 \<le> r" using r1 by linarith
  have "\<lfloor>real_of_int r / 100\<rfloor> = r div 100"
    using floor_divide_of_int_eq [of r 100, where ?'a = real] by simp
  moreover have "r div 100 = int n" using r1 r2 by simp
  ultimately have "\<lfloor>real_of_int r / 100\<rfloor> = int n" by simp
  then show ?thesis
    using vpos r0 by (simp add: np_log10_def L_def [symmetric] r_def [symmetric])
qed


lemma py_int_main_low:
  assumes "0 < v" "v < 1"
  shows "\<exists>j. py_int (np_round2 (np_log10 v)) = Inr j \<and> j \<le> 0"
proof -
  define r where "r = round_half_even (log 10 v * 100)"
  have "log 10 v < real 0" using assms by (intro log10_less) simp_all
  then have "log 10 v * 100 \<le> real_of_int 0" by simp
  then have "r \<le> 0" unfolding r_def by (rule rhe_upper)
  then have "real_of_int r / 100 \<le> 0" by simp
  then have "(if 0 \<le> real_of_int r / 100 then \<lfloor>real_of_int r / 100\<rfloor>
              else \<lceil>real_of_int r / 100\<rceil>) \<le> 0"
    by (simp add: ceiling_le_iff floor_le_iff)
  then show ?thesis
    using assms(1) by (simp add: np_log10_def r_def [symmetric])
qed

text \<open>The index of the main plot against the floor of the logarithm.\<close>

lemma py_int_main_floor:
  assumes "0 < v"
  shows "\<exists>j. py_int (np_round2 (np_log10 v)) = Inr j \<and>
              max 0 \<lfloor>log 10 v\<rfloor> \<le> max 0 j \<and> max 0 j \<le> max 0 \<lfloor>log 10 v\<rfloor> + 1"
proof -
  define L where "L = log 10 v"
  define r where "r = round_half_even (L * 100)"
  define j where "j = (if 0 \<le> real_of_int r / 100 then \<lfloor>real_of_int r / 100\<rfloor>
                       else \<lceil>real_of_int r / 100\<rceil>)"
  have eq: "py_int (np_round2 (np_log10 v)) = Inr j"
    using assms by (simp add: np_log10_def L_def [symmetric] r_def [symmetric] j_def)
  have fl: "\<lfloor>L * 100\<rfloor> div 100 = \<lfloor>L\<rfloor>"
  proof -
    have "\<lfloor>L * 100 / real_of_int 100\<rfloor> = \<lfloor>L * 100\<rfloor> div 100"
      by (rule floor_divide_real_eq_div) simp
    then show ?thesis by simp
  qed
  have r1: "\<lfloor>L * 100\<rfloor> \<le> r" unfolding r_def by (rule rhe_floor_le)
  have r2: "r \<le> \<lfloor>L * 100\<rfloor> + 1" unfolding r_def by (rule rhe_le_floor1)
  have d: "\<lfloor>real_of_int r / 100\<rfloor> = r div 100"
    using floor_divide_of_int_eq [of r 100, where ?'a = real] by simp
  show ?thesis
  proof (cases "0 \<le> r")
    case True
    then have j: "j = r div 100" by (simp add: j_def d)
    have "\<lfloor>L\<rfloor> \<le> r div 100" using r1 fl zdiv_mono1 [of "\<lfloor>L * 100\<rfloor>" r 100] by simp
    moreover have "r div 100 \<le> \<lfloor>L\<rfloor> + 1"
    proof -
      have "r div 100 \<le> (\<lfloor>L * 100\<rfloor> + 1) div 100" using r2 by (intro zdiv_mono1) simp_all
      also have "\<dots> \<le> \<lfloor>L * 100\<rfloor> div 100 + 1" by simp
      finally show ?thesis using fl by simp
    qed
    moreover have "0 \<le> r div 100" using True by simp
    ultimately have "max 0 \<lfloor>L\<rfloor> \<le> max 0 (r div 100) \<and> max 0 (r div 100) \<le> max 0 \<lfloor>L\<rfloor> + 1"
      by linarith
    then show ?thesis using eq j unfolding L_def by (intro exI [of _ j]) simp
  next
    case False
    then have "r \<le> - 1" by simp
    then have "\<lfloor>L * 100\<rfloor> \<le> - 1" using r1 by linarith
    then have "\<lfloor>L\<rfloor> \<le> - 1" using fl by linarith
    then have "max 0 \<lfloor>L\<rfloor> = 0" by simp
    moreover have "j \<le> 0" using False by (simp add: j_def ceiling_le_iff)
    then have "max 0 j = 0" by simp
    ultimately show ?thesis using eq unfolding L_def by (intro exI [of _ j]) simp
  qed
qed

lemma py_int_round_eq:
  assumes "0 < v" "10 ^ (2 * n) < 10 * v ^ 2" "v ^ 2 < 10 * 10 ^ (2 * n)"
  shows "py_int_round (np_log10 v) = Inr (int n)"
proof -
  define L where "L = log 10 v"
  have two: "log 10 (10 * v ^ 2) = 1 + 2 * L"
    using assms(1) by (simp add: log_mult log_nat_power L_def)
  have "real (2 * n) < log 10 (10 * v ^ 2)" using assms(2) by (rule log10_gt)
  then have lo: "real_of_int (int n) - 1 / 2 < L" using two by simp
  have "log 10 (10 * v ^ 2) < real (2 * n + 2)"
    using assms(1,3) by (intro log10_less) simp_all
  then have hi: "L < real_of_int (int n) + 1 / 2" using two by simp
  have "int n \<le> round_half_even L" using lo by (rule rhe_gt_half)
  moreover have "round_half_even L \<le> int n" using hi by (rule rhe_lt_half)
  ultimately show ?thesis using assms(1) by (simp add: np_log10_def L_def [symmetric])
qed

lemma py_int_round_low:
  assumes "0 < v" "v \<le> 1"
  shows "\<exists>j. py_int_round (np_log10 v) = Inr j \<and> j \<le> 0"
proof -
  have "log 10 v \<le> log 10 1" using assms by (intro log_mono) simp_all
  then have "log 10 v \<le> real_of_int 0" by simp
  then have "round_half_even (log 10 v) \<le> 0" by (rule rhe_upper)
  then show ?thesis using assms(1) by (simp add: np_log10_def)
qed

section \<open>The callbacks and the state\<close>

lemma label_distinct: "label_play \<noteq> label_pause"
  by (simp add: label_play_def label_pause_def)

lemma tap_update_frame:
  "us_company_map (snd (tap_update new s)) = us_company_map s \<and>
   main_df (snd (tap_update new s)) = main_df s \<and>
   year (snd (tap_update new s)) = year s \<and>
   market_cap_lower (snd (tap_update new s)) = market_cap_lower s \<and>
   btn_label (snd (tap_update new s)) = btn_label s \<and>
   callback (snd (tap_update new s)) = callback s \<and>
   session_callbacks (snd (tap_update new s)) = session_callbacks s"
  by (simp add: tap_update_def Let_def split: list.split sum.split)

lemma slider_update_frame:
  "us_company_map (snd (slider_update v s)) = us_company_map s \<and>
   main_df (snd (slider_update v s)) = main_df s \<and>
   year (snd (slider_update v s)) = year s \<and>
   city (snd (slider_update v s)) = city s \<and>
   market_cap_lower (snd (slider_update v s)) = v \<and>
   btn_label (snd (slider_update v s)) = btn_label s \<and>
   callback (snd (slider_update v s)) = callback s \<and>
   session_callbacks (snd (slider_update v s)) = session_callbacks s"
  by (simp add: slider_update_def Let_def split: sum.split)

lemma update_year_frame:
  "us_company_map (snd (update_year s)) = us_company_map s \<and>
   main_df (snd (update_year s)) = main_df s \<and>
   year (snd (update_year s)) = wrap_year (year s + 1) \<and>
   city (snd (update_year s)) = city s \<and>
   market_cap_lower (snd (update_year s)) = market_cap_lower s \<and>
   btn_label (snd (update_year s)) = btn_label s \<and>
   callback (snd (update_year s)) = callback s \<and>
   session_callbacks (snd (update_year s)) = session_callbacks s"
  by (simp add: update_year_def Let_def split: sum.split)

lemma play_frame:
  "us_company_map (snd (play s)) = us_company_map s \<and>
   main_df (snd (play s)) = main_df s \<and>
   year (snd (play s)) = year s \<and>
   city (snd (play s)) = city s \<and>
   market_cap_lower (snd (play s)) = market_cap_lower s \<and>
   main_source (snd (play s)) = main_source s \<and>
   sub_source (snd (play s)) = sub_source s"
  by (simp add: play_def Let_def split: option.split)

lemma step_us_company_map: "us_company_map (snd (step ev s)) = us_company_map s"
  by (cases ev) (simp_all add: tap_update_frame slider_update_frame update_year_frame play_frame)

lemma step_main_df: "main_df (snd (step ev s)) = main_df s"
  by (cases ev) (simp_all add: tap_update_frame slider_update_frame update_year_frame play_frame)

lemma run_us_company_map: "us_company_map (run evs s) = us_company_map s"
  by (induction evs arbitrary: s) (simp_all add: step_us_company_map)

lemma run_append: "run (evs @ evs') s = run evs' (run evs s)"
  by (induction evs arbitrary: s) simp_all

lemma reachable_run: "reachable tbl s \<Longrightarrow> reachable tbl (run evs s)"
proof (induction evs arbitrary: s)
  case Nil
  then show ?case by simp
next
  case (Cons ev evs)
  from Cons.prems have "reachable tbl (snd (step ev s))" by (rule reachable.after)
  then show ?case using Cons.IH by simp
qed

lemma init_fields:
  assumes "init tbl = Inr s"
  shows "us_company_map s = tbl" "year s = 2022" "city s = ''San Jose''"
    "market_cap_lower s = 0" "btn_label s = label_play" "callback s = None"
    "session_callbacks s = []"
    "create_df_main tbl 2022 0 = Inr (main_df s)" "main_source s = main_df s"
    "create_df_sub tbl 2022 ''San Jose'' 0 = Inr (sub_source s)"
  using assms by (auto simp: init_def split: sum.splits list.splits)

lemma play_toggle_inv: "toggle_inv s \<Longrightarrow> toggle_inv (snd (play s))"
  by (auto simp: toggle_inv_def play_def Let_def label_distinct split: option.splits)

lemma step_toggle_inv: "toggle_inv s \<Longrightarrow> toggle_inv (snd (step ev s))"
proof (cases ev)
  case Click
  assume "toggle_inv s"
  then show ?thesis using Click by (simp add: play_toggle_inv)
next
  case (Tap new)
  assume "toggle_inv s"
  then show ?thesis using Tap by (simp add: toggle_inv_def tap_update_frame)
next
  case (Slide v)
  assume "toggle_inv s"
  then show ?thesis using Slide by (simp add: toggle_inv_def slider_update_frame)
next
  case Tick
  assume "toggle_inv s"
  then show ?thesis using Tick by (simp add: toggle_inv_def update_year_frame)
qed

lemma reachable_toggle_inv: "reachable tbl s \<Longrightarrow> toggle_inv s"
proof (induction rule: reachable.induct)
  case (loaded s)
  then show ?case by (simp add: toggle_inv_def init_fields)
next
  case (after s ev)
  then show ?case by (simp add: step_toggle_inv)
qed

lemma demo_main_2022_0:
  "create_df_main demo_map 2022 0 =
     Inr [\<lparr>m_City = ''Cupertino'', m_Market_Cap = 2000, m_Employees = 150000,
           m_x = Some 0, m_y = Some 0, m_Symbol = 1, m_col = main_col 2000,
           m_c_col = Sunset8 3, m_circle_size = np_log1p_times3 (Some 150000)\<rparr>,
          \<lparr>m_City = ''San Jose'', m_Market_Cap = 200, m_Employees = 80000,
           m_x = Some 0, m_y = Some 0, m_Symbol = 1, m_col = main_col 200,
           m_c_col = Sunset8 2, m_circle_size = np_log1p_times3 (Some 80000)\<rparr>]"
proof -
  have a: "py_int (main_col 2000) = Inr 3"
    unfolding main_col_def using py_int_main_eq [of 3 "2000 + 0.0002"] by (simp add: power_divide)
  have b: "py_int (main_col 200) = Inr 2"
    unfolding main_col_def using py_int_main_eq [of 2 "200 + 0.0002"] by (simp add: power_divide)
  show ?thesis
    by (simp add: create_df_main_def masked_df0_def project_year_def demo_map_def
        table_of_def company_def project_row_def mask_row_def below_def group_keys_def
        agg_group_def agg_sum_def agg_mean_def agg_count_def present_def main_c_col_def
        a b Sunset_8_def)
qed

section \<open>The example tables, evaluated\<close>

lemma demo_years: "year_columns demo_map = [2019, 2020, 2021, 2022]"
  by (simp add: demo_map_def table_of_def)

lemma demo_sub_san_jose:
  "create_df_sub demo_map 2022 ''San Jose'' 0 =
     Inr [\<lparr>Symbol = Some ''CSCO'', City = ''San Jose'', x_col = Some 0, y_col = Some 0,
           Market_Cap = Some 200, Employees = Some 80000, c_col = Sunset8 2,
           circle_size = np_log1p_times3 (Some 80000)\<rparr>]"
proof -
  have a: "py_int_round (np_log10 (200 + 0.0002)) = Inr 2"
    using py_int_round_eq [of "200 + 0.0002" 2] by (simp add: power_divide)
  show ?thesis
    using a
    by (simp add: create_df_sub_def masked_df0_def project_year_def demo_map_def
        table_of_def company_def project_row_def mask_row_def below_def
        agg_sum_def present_def sub_c_col_def Sunset_8_def sub_row_of_def
        df0_row.extend_def sub_row.fields_def)
qed

lemma demo_sub_cupertino:
  "yr \<in> {2019, 2020, 2021, 2022} \<Longrightarrow> create_df_sub demo_map yr ''Cupertino'' 0 =
     Inr [\<lparr>Symbol = Some ''AAPL'', City = ''Cupertino'', x_col = Some 0, y_col = Some 0,
           Market_Cap = Some 2000, Employees = Some 150000, c_col = Sunset8 3,
           circle_size = np_log1p_times3 (Some 150000)\<rparr>]"
proof -
  assume y: "yr \<in> {2019, 2020, 2021, 2022}"
  have a: "py_int_round (np_log10 (2000 + 0.0002)) = Inr 3"
    using py_int_round_eq [of "2000 + 0.0002" 3] by (simp add: power_divide)
  show ?thesis
    using a y
    by (auto simp add: create_df_sub_def masked_df0_def project_year_def demo_map_def
        table_of_def company_def project_row_def mask_row_def below_def
        agg_sum_def present_def sub_c_col_def Sunset_8_def sub_row_of_def
        df0_row.extend_def sub_row.fields_def)
qed

lemma demo_init: "\<exists>s0. init demo_map = Inr s0"
  by (simp add: init_def demo_main_2022_0 demo_sub_san_jose)

section \<open>The claims\<close>

subsection \<open>C4: an empty selection\<close>

text \<open>
  C4, as the code has it. \<^verbatim>\<open>tap_update\<close> is guarded by \<^verbatim>\<open>if new:\<close>, so a tap event
  with an empty list of indices changes nothing and raises nothing: the selected city
  and the rows of the subplot's data source stay as they were.
\<close>

theorem empty_selection_no_op: "tap_update [] s = (None, s)"
  by (simp add: tap_update_def)

text \<open>
  C4 as stated fails: after loading the demonstration table and selecting row 0
  (Cupertino, one row in the subplot), an empty selection leaves the city selected and
  the subplot's data source at one row instead of emptying it.
\<close>

theorem empty_selection_keeps_rows:
  "\<exists>s0. init demo_map = Inr s0 \<and>
     city (snd (tap_update [0] s0)) = ''Cupertino'' \<and>
     length (sub_source (snd (tap_update [0] s0))) = 1 \<and>
     fst (tap_update [] (snd (tap_update [0] s0))) = None \<and>
     city (snd (tap_update [] (snd (tap_update [0] s0)))) = ''Cupertino'' \<and>
     length (sub_source (snd (tap_update [] (snd (tap_update [0] s0))))) = 1"
proof -
  obtain s0 where s0: "init demo_map = Inr s0" using demo_init by blast
  have m: "main_df s0 = [\<lparr>m_City = ''Cupertino'', m_Market_Cap = 2000, m_Employees = 150000,
           m_x = Some 0, m_y = Some 0, m_Symbol = 1, m_col = main_col 2000,
           m_c_col = Sunset8 3, m_circle_size = np_log1p_times3 (Some 150000)\<rparr>,
          \<lparr>m_City = ''San Jose'', m_Market_Cap = 200, m_Employees = 80000,
           m_x = Some 0, m_y = Some 0, m_Symbol = 1, m_col = main_col 200,
           m_c_col = Sunset8 2, m_circle_size = np_log1p_times3 (Some 80000)\<rparr>]"
    using init_fields(8) [OF s0] by (simp add: demo_main_2022_0)
  have t: "city (snd (tap_update [0] s0)) = ''Cupertino'' \<and>
     length (sub_source (snd (tap_update [0] s0))) = 1"
    using m init_fields(1,2,4) [OF s0]
    by (simp add: tap_update_def Let_def demo_sub_cupertino)
  show ?thesis using s0 t by (intro exI [of _ s0]) (simp add: tap_update_def)
qed

subsection \<open>C10: the button label and the timer handle\<close>

text \<open>
  C10: in every state the script can reach, the handle \<^verbatim>\<open>callback\<close> is present exactly
  when the button shows the pause form, and absent exactly when it shows the play form.
\<close>

theorem handle_agrees_with_label:
  assumes "reachable tbl s"
  shows "(callback s \<noteq> None \<longleftrightarrow> btn_label s = label_pause) \<and>
         (callback s = None \<longleftrightarrow> btn_label s = label_play)"
  using reachable_toggle_inv [OF assms]
  by (auto simp: toggle_inv_def label_distinct label_distinct [symmetric] split: option.splits)

text \<open>The demonstration table after a tick and a click (running), and after a further
  slider change and click (stopped).\<close>

theorem handle_agrees_with_label_witness:
  "\<exists>s0. init demo_map = Inr s0 \<and>
     callback (run [Tick, Click] s0) \<noteq> None \<and>
     btn_label (run [Tick, Click] s0) = label_pause \<and>
     callback (run [Tick, Click, Slide 5, Click] s0) = None \<and>
     btn_label (run [Tick, Click, Slide 5, Click] s0) = label_play"
proof -
  obtain s0 where s0: "init demo_map = Inr s0" using demo_init by blast
  then have r: "reachable demo_map s0" by (rule reachable.loaded)
  have a: "btn_label (run [Tick, Click] s0) = label_pause"
    using init_fields(5) [OF s0] by (simp add: play_def update_year_frame)
  have b: "btn_label (run [Tick, Click, Slide 5, Click] s0) = label_play"
    using init_fields(5) [OF s0]
    by (simp add: play_def update_year_frame slider_update_frame Let_def label_distinct [symmetric])
  from handle_agrees_with_label [OF reachable_run [OF r], of "[Tick, Click]"]
    handle_agrees_with_label [OF reachable_run [OF r], of "[Tick, Click, Slide 5, Click]"]
    a b s0
  show ?thesis by blast
qed

subsection \<open>C2: the year after the last one\<close>

lemma run_snoc: "run (evs @ [ev]) s = snd (step ev (run evs s))"
  by (simp add: run_append)

lemma wrap_year_range: "2019 \<le> y \<Longrightarrow> y \<le> 2022 \<Longrightarrow> wrap_year (y + 1) = 2019 + (y - 2019 + 1) mod 4"
proof -
  assume "2019 \<le> y" "y \<le> 2022"
  then have "y = 2019 \<or> y = 2020 \<or> y = 2021 \<or> y = 2022" by arith
  then show ?thesis by (auto simp: wrap_year_def)
qed

lemma ticks_year:
  "2019 \<le> year s \<Longrightarrow> year s \<le> 2022 \<Longrightarrow>
   year (run (replicate n Tick) s) = 2019 + (year s - 2019 + int n) mod 4"
proof (induction n)
  case 0
  then show ?case by simp
next
  case (Suc n)
  let ?s = "run (replicate n Tick) s"
  have y: "year ?s = 2019 + (year s - 2019 + int n) mod 4" using Suc by simp
  have "replicate (Suc n) Tick = replicate n Tick @ [Tick]"
    by (simp add: replicate_append_same)
  then have "year (run (replicate (Suc n) Tick) s) = wrap_year (year ?s + 1)"
    by (simp only: run_snoc) (simp add: update_year_frame)
  also have "\<dots> = 2019 + (year ?s - 2019 + 1) mod 4"
    using y by (intro wrap_year_range) simp_all
  also have "\<dots> = 2019 + (year s - 2019 + int (Suc n)) mod 4"
    by (simp add: y mod_simps algebra_simps)
  finally show ?case .
qed

lemma step_year_range:
  "2019 \<le> year s \<and> year s \<le> 2022 \<Longrightarrow>
   2019 \<le> year (snd (step ev s)) \<and> year (snd (step ev s)) \<le> 2022"
  by (cases ev)
    (auto simp: tap_update_frame slider_update_frame update_year_frame play_frame wrap_year_def)

lemma reachable_year: "reachable tbl s \<Longrightarrow> 2019 \<le> year s \<and> year s \<le> 2022"
proof (induction rule: reachable.induct)
  case (loaded s)
  then show ?case by (simp add: init_fields)
next
  case (after s ev)
  from after.IH show ?case by (rule step_year_range)
qed

text \<open>
  C2. In every state the script can reach the year is one of 2019..2022. From a year
  \<open>y\<close> of that range, advancing \<open>n\<close> times, where the \<open>n\<close> steps would count up to
  \<open>2022 + k\<close> for a positive \<open>k\<close>, arrives at \<open>2019 + (k - 1) mod (2022 - 2019 + 1)\<close>.
  Advancing from 2022 by one gives 2019, a wrap-around and not a clamp; and the tick of
  the animation is this advance step, with the rule of lines 446-447.
\<close>

theorem advancing_past_last_year_wraps:
  "(reachable tbl s \<longrightarrow> 2019 \<le> year s \<and> year s \<le> 2022) \<and>
   (2019 \<le> year s \<and> year s \<le> 2022 \<and> 0 < k \<and> year s + int n = 2022 + k \<longrightarrow>
      year (run (replicate n Tick) s) = 2019 + (k - 1) mod (2022 - 2019 + 1)) \<and>
   (year s = 2022 \<longrightarrow> year (snd (update_year s)) = 2019) \<and>
   year (snd (step Tick s)) = wrap_year (year s + 1)"
proof (intro conjI impI)
  assume "reachable tbl s"
  then show "2019 \<le> year s" "year s \<le> 2022" using reachable_year by blast+
next
  assume a: "2019 \<le> year s \<and> year s \<le> 2022 \<and> 0 < k \<and> year s + int n = 2022 + k"
  then have "year (run (replicate n Tick) s) = 2019 + (year s - 2019 + int n) mod 4"
    by (simp add: ticks_year)
  also have "year s - 2019 + int n = (k - 1) + 4" using a by simp
  also have "((k - 1) + 4) mod 4 = (k - 1) mod 4" by presburger
  finally show "year (run (replicate n Tick) s) = 2019 + (k - 1) mod (2022 - 2019 + 1)"
    by simp
next
  assume "year s = 2022"
  then show "year (snd (update_year s)) = 2019" by (simp add: update_year_frame wrap_year_def)
next
  show "year (snd (step Tick s)) = wrap_year (year s + 1)" by (simp add: update_year_frame)
qed

text \<open>The demonstration table: after two ticks the year is 2020, and seven more ticks,
  which count up to 2022 + 5, arrive at 2019.\<close>

theorem advancing_past_last_year_wraps_witness:
  "\<exists>s0. init demo_map = Inr s0 \<and> reachable demo_map (run [Tick, Tick] s0) \<and>
     year s0 = 2022 \<and> year (snd (update_year s0)) = 2019 \<and>
     year (run [Tick, Tick] s0) = 2020 \<and>
     year (run (replicate 7 Tick) (run [Tick, Tick] s0)) = 2019 + (5 - 1) mod (2022 - 2019 + 1) \<and>
     year (run (replicate 7 Tick) (run [Tick, Tick] s0)) = 2019"
proof -
  obtain s0 where s0: "init demo_map = Inr s0" using demo_init by blast
  let ?s = "run [Tick, Tick] s0"
  have r: "reachable demo_map ?s" using reachable.loaded [OF s0] by (rule reachable_run)
  have y0: "year s0 = 2022" using s0 by (rule init_fields)
  have y: "year ?s = 2020" using y0 by (simp add: update_year_frame wrap_year_def)
  note inst = advancing_past_last_year_wraps [where tbl = demo_map and k = 5 and n = 7]
  have rng: "2019 \<le> year ?s \<and> year ?s \<le> 2022" using inst [where s = ?s] r by blast
  have "year (run (replicate 7 Tick) ?s) = 2019 + (5 - 1) mod (2022 - 2019 + 1)"
    using inst [where s = ?s] rng y by simp
  moreover have "year (snd (update_year s0)) = 2019" using inst [where s = s0] y0 by blast
  ultimately show ?thesis using s0 r y0 y by (intro exI [of _ s0]) simp
qed

section \<open>The frames of \<^verbatim>\<open>create_df\<close>\<close>

lemma masked_df0_Inr:
  "masked_df0 tbl yr lower = Inr d \<longleftrightarrow>
     yr \<in> set (year_columns tbl) \<and>
     d = map (\<lambda>r. mask_row lower (project_row yr r)) (src_rows tbl)"
  by (auto simp: masked_df0_def project_year_def)

lemma City_mask_project: "City (mask_row lower (project_row yr r)) = src_City r"
  by (simp add: mask_row_def project_row_def)

lemma masked_df0_keys:
  "masked_df0 tbl yr lower = Inr d \<Longrightarrow> group_keys d = sort (remdups (map src_City (src_rows tbl)))"
  by (simp add: masked_df0_Inr group_keys_def City_mask_project comp_def)

lemma agg_group_City: "agg_group d k = Inr r \<Longrightarrow> m_City r = k"
  by (auto simp: agg_group_def Let_def split: sum.splits)

lemma agg_groups_Inr:
  "agg_groups d ks = Inr t \<longleftrightarrow> list_all2 (\<lambda>k r. agg_group d k = Inr r) ks t"
proof (induction ks arbitrary: t)
  case Nil
  then show ?case by auto
next
  case (Cons k ks)
  show ?case
  proof (cases "agg_group d k")
    case (Inl e)
    then show ?thesis by (auto simp: list_all2_Cons1)
  next
    case (Inr r)
    show ?thesis
    proof (cases "agg_groups d ks")
      case (Inl e)
      have ih: "\<not> list_all2 (\<lambda>k r. agg_group d k = Inr r) ks zs" for zs
        using Cons.IH [of zs] Inl by auto
      show ?thesis by (auto simp: list_all2_Cons1 Inr Inl ih)
    next
      case t': (Inr rs)
      have ih: "list_all2 (\<lambda>k r. agg_group d k = Inr r) ks zs \<longleftrightarrow> zs = rs" for zs
        using Cons.IH [of zs] t' by auto
      show ?thesis by (auto simp: list_all2_Cons1 Inr t' ih)
    qed
  qed
qed

lemma agg_groups_Cities: "agg_groups d ks = Inr t \<Longrightarrow> map m_City t = ks"
proof -
  assume "agg_groups d ks = Inr t"
  then have "list_all2 (\<lambda>k r. agg_group d k = Inr r) ks t" by (simp add: agg_groups_Inr)
  then have "list_all2 (\<lambda>k r. m_City r = k) ks t"
    by (rule list_all2_mono) (simp add: agg_group_City)
  then show ?thesis by (induction rule: list_all2_induct) simp_all
qed

lemma create_df_main_Cities:
  "create_df_main tbl yr lower = Inr t \<Longrightarrow>
   map m_City t = sort (remdups (map src_City (src_rows tbl)))"
  by (auto simp: create_df_main_def masked_df0_keys dest: agg_groups_Cities split: sum.splits)

lemma main_c_col_zero: "main_c_col (main_col 0) = Inr (Sunset8 0)"
proof -
  obtain j where "py_int (np_round2 (np_log10 (0 + 0.0002))) = Inr j" "j \<le> 0"
    using py_int_main_low [of "0 + 0.0002"] by auto
  then show ?thesis by (simp add: main_c_col_def main_col_def Sunset_8_def max_def)
qed

lemma demo_main_zero:
  "yr \<in> {2019, 2020, 2021, 2022} \<Longrightarrow> create_df_main demo_map yr 0 =
     Inr [\<lparr>m_City = ''Cupertino'', m_Market_Cap = 2000, m_Employees = 150000,
           m_x = Some 0, m_y = Some 0, m_Symbol = 1, m_col = main_col 2000,
           m_c_col = Sunset8 3, m_circle_size = np_log1p_times3 (Some 150000)\<rparr>,
          \<lparr>m_City = ''San Jose'', m_Market_Cap = 200, m_Employees = 80000,
           m_x = Some 0, m_y = Some 0, m_Symbol = 1, m_col = main_col 200,
           m_c_col = Sunset8 2, m_circle_size = np_log1p_times3 (Some 80000)\<rparr>]"
proof -
  assume y: "yr \<in> {2019, 2020, 2021, 2022}"
  have a: "py_int (main_col 2000) = Inr 3"
    unfolding main_col_def using py_int_main_eq [of 3 "2000 + 0.0002"]
    by (simp add: power_divide)
  have b: "py_int (main_col 200) = Inr 2"
    unfolding main_col_def using py_int_main_eq [of 2 "200 + 0.0002"]
    by (simp add: power_divide)
  show ?thesis
    using y
    by (auto simp add: create_df_main_def masked_df0_def project_year_def demo_map_def
        table_of_def company_def project_row_def mask_row_def below_def group_keys_def
        agg_group_def agg_sum_def agg_mean_def agg_count_def present_def main_c_col_def
        a b Sunset_8_def)
qed

lemma demo_main_500:
  "yr \<in> {2019, 2020, 2021, 2022} \<Longrightarrow> create_df_main demo_map yr 500 =
     Inr [\<lparr>m_City = ''Cupertino'', m_Market_Cap = 2000, m_Employees = 150000,
           m_x = Some 0, m_y = Some 0, m_Symbol = 1, m_col = main_col 2000,
           m_c_col = Sunset8 3, m_circle_size = np_log1p_times3 (Some 150000)\<rparr>,
          \<lparr>m_City = ''San Jose'', m_Market_Cap = 0, m_Employees = 0,
           m_x = Some 0, m_y = Some 0, m_Symbol = 0, m_col = main_col 0,
           m_c_col = Sunset8 0, m_circle_size = np_log1p_times3 (Some 0)\<rparr>]"
proof -
  assume y: "yr \<in> {2019, 2020, 2021, 2022}"
  have a: "main_c_col (main_col 2000) = Inr (Sunset8 3)"
    unfolding main_col_def main_c_col_def using py_int_main_eq [of 3 "2000 + 0.0002"]
    by (simp add: power_divide Sunset_8_def)
  show ?thesis
    using y
    by (auto simp add: create_df_main_def masked_df0_def project_year_def demo_map_def
        table_of_def company_def project_row_def mask_row_def below_def group_keys_def
        agg_group_def agg_sum_def agg_mean_def agg_count_def present_def
        a main_c_col_zero)
qed

subsection \<open>C8: the row a tap selects\<close>

text \<open>The module-level frame of the main plot stays the one made at loading.\<close>

lemma reachable_main_df:
  "reachable tbl s \<Longrightarrow> us_company_map s = tbl \<and> create_df_main tbl 2022 0 = Inr (main_df s)"
proof (induction rule: reachable.induct)
  case (loaded s)
  then show ?case by (simp add: init_fields)
next
  case (after s ev)
  then show ?case by (simp add: step_us_company_map step_main_df)
qed

text \<open>
  C8: in every reachable state, a tap on row \<open>i\<close> selects the city of row \<open>i\<close> of the
  frame of the main plot for the current year and lower bound. (\<^verbatim>\<open>tap_update\<close> reads
  the frame made at loading; every frame of the main plot lists the cities of the loaded
  table in the same sorted order, so the rows agree.)
\<close>

theorem tap_resolves_current_order:
  assumes "reachable tbl s"
    and "create_df_main tbl (year s) (market_cap_lower s) = Inr cur"
    and "i < length cur"
  shows "city (snd (tap_update (i # js) s)) = m_City (cur ! i)"
proof -
  have m: "create_df_main tbl 2022 0 = Inr (main_df s)"
    using assms(1) by (simp add: reachable_main_df)
  have "map m_City (main_df s) = map m_City cur"
    using create_df_main_Cities [OF m] create_df_main_Cities [OF assms(2)] by simp
  then have len: "length (main_df s) = length cur"
    and nth: "m_City (main_df s ! i) = m_City (cur ! i)"
    using assms(3) by (auto dest: map_eq_imp_length_eq simp: list_eq_iff_nth_eq)
  show ?thesis
    using len nth assms(3) by (simp add: tap_update_def Let_def split: sum.split)
qed

text \<open>The demonstration table after moving the slider to 500 and one tick: row 0 of the
  frame for 2019 and 500 is Cupertino, and a tap on row 0 selects Cupertino.\<close>

theorem tap_resolves_current_order_witness:
  "\<exists>s0 cur. init demo_map = Inr s0 \<and>
     reachable demo_map (run [Slide 500, Tick] s0) \<and>
     year (run [Slide 500, Tick] s0) = 2019 \<and>
     market_cap_lower (run [Slide 500, Tick] s0) = 500 \<and>
     create_df_main demo_map 2019 500 = Inr cur \<and> 0 < length cur \<and>
     m_City (cur ! 0) = ''Cupertino'' \<and>
     city (snd (tap_update [0] (run [Slide 500, Tick] s0))) = ''Cupertino''"
proof -
  obtain s0 where s0: "init demo_map = Inr s0" using demo_init by blast
  let ?s = "run [Slide 500, Tick] s0"
  obtain cur where cur: "create_df_main demo_map 2019 500 = Inr cur"
    and c0: "0 < length cur" "m_City (cur ! 0) = ''Cupertino''"
    using demo_main_500 [of 2019] by simp
  have r: "reachable demo_map ?s"
    using reachable.loaded [OF s0] by (rule reachable_run)
  have y: "year ?s = 2019" "market_cap_lower ?s = 500"
    using init_fields(2) [OF s0]
    by (simp_all add: update_year_frame slider_update_frame wrap_year_def)
  have "create_df_main demo_map (year ?s) (market_cap_lower ?s) = Inr cur"
    using cur y by simp
  from tap_resolves_current_order [OF r this c0(1), of "[]"] c0 cur r y s0
  show ?thesis by (intro exI [of _ s0] exI [of _ cur]) simp
qed

subsection \<open>Callbacks that return keep the panels current\<close>









subsection \<open>C1: the colour of a city\<close>

lemma present_simps:
  "present [] = []"
  "present (Some v # cs) = v # present cs"
  "present (None # cs) = present cs"
  by (simp_all add: present_def)


lemma main_c_col_IndexError:
  "py_int c = Inr j \<Longrightarrow> 7 < j \<Longrightarrow> main_c_col c = Inl IndexError"
  by (simp add: main_c_col_def Sunset_8_def)


lemma agg_group_Inr:
  assumes "agg_group d k = Inr r"
  shows "m_City r = k"
    and "m_Market_Cap r = agg_sum (map Market_Cap (filter (\<lambda>r. City r = k) d))"
    and "m_Employees r = agg_sum (map Employees (filter (\<lambda>r. City r = k) d))"
    and "m_Symbol r = agg_count (map Symbol (filter (\<lambda>r. City r = k) d))"
    and "main_c_col (main_col (m_Market_Cap r)) = Inr (m_c_col r)"
  using assms by (auto simp: agg_group_def Let_def split: sum.splits)

lemma agg_groups_member:
  assumes "agg_groups d ks = Inr t" "r \<in> set t"
  shows "\<exists>k\<in>set ks. agg_group d k = Inr r"
proof -
  have "list_all2 (\<lambda>k r. agg_group d k = Inr r) ks t"
    using assms(1) by (simp add: agg_groups_Inr)
  then have l: "length ks = length t" and n: "\<And>i. i < length t \<Longrightarrow> agg_group d (ks ! i) = Inr (t ! i)"
    by (auto simp: list_all2_conv_all_nth)
  obtain i where i: "i < length t" "r = t ! i" using assms(2) by (auto simp: in_set_conv_nth)
  have "ks ! i \<in> set ks" using i(1) l by simp
  then show ?thesis using n [OF i(1)] i(2) by blast
qed


lemma create_df_main_member:
  assumes "create_df_main tbl yr lower = Inr t" "r \<in> set t"
  shows "\<exists>d. masked_df0 tbl yr lower = Inr d \<and> m_City r \<in> set (group_keys d) \<and>
             agg_group d (m_City r) = Inr r"
proof -
  obtain d where d: "masked_df0 tbl yr lower = Inr d" and g: "agg_groups d (group_keys d) = Inr t"
    using assms(1) by (auto simp: create_df_main_def split: sum.splits)
  obtain k where "k \<in> set (group_keys d)" "agg_group d k = Inr r"
    using agg_groups_member [OF g assms(2)] by blast
  then show ?thesis using d agg_group_Inr(1) [of d k r] by auto
qed

















subsection \<open>C7: masked rows in the sums and the counts\<close>

lemma below_iff: "below c lower \<longleftrightarrow> (\<exists>v. c = Some v \<and> v < lower)"
  by (simp add: below_def split: option.split)

lemma masked_row_fields:
  "City (mask_row lower (project_row yr r)) = src_City r"
  "x_col (mask_row lower (project_row yr r)) = src_x r"
  "y_col (mask_row lower (project_row yr r)) = src_y r"
  "Symbol (mask_row lower (project_row yr r)) =
     (if below (src_Market_Cap r yr) lower then None else src_Symbol r)"
  "Market_Cap (mask_row lower (project_row yr r)) =
     (if below (src_Market_Cap r yr) lower then None else src_Market_Cap r yr)"
  "Employees (mask_row lower (project_row yr r)) =
     (if below (src_Market_Cap r yr) lower then None else src_Employees r yr)"
  by (simp_all add: mask_row_def project_row_def)

text \<open>Aggregating a column of the masked frame over one city is aggregating the source
  column over the rows of the city that are not masked.\<close>

lemma present_masked:
  assumes "\<And>r. f (mask_row lower (project_row yr r)) =
             (if below (src_Market_Cap r yr) lower then None else g r)"
  shows "present (map f (filter (\<lambda>r. City r = k)
            (map (\<lambda>r. mask_row lower (project_row yr r)) rs))) =
         present (map g (filter (\<lambda>r. src_City r = k \<and> \<not> below (src_Market_Cap r yr) lower) rs))"
proof (induction rs)
  case Nil
  then show ?case by simp
next
  case (Cons r rs)
  show ?case
  proof (cases "src_City r = k \<and> \<not> below (src_Market_Cap r yr) lower")
    case True
    then show ?thesis using Cons.IH
      by (cases "g r") (simp_all add: assms masked_row_fields present_simps)
  next
    case False
    then show ?thesis using Cons.IH
      by (auto simp: assms masked_row_fields present_simps)
  qed
qed

text \<open>
  C7. Masking keeps every row (the masked frame has the rows of the loaded table, in
  order, each with its city) and sets symbol, market cap and employees to missing on
  exactly the rows whose market cap is below the lower bound. In the frame of the main
  plot, the sums and the count of a city are those of its rows that are not masked. In
  the scenario (CityA with market caps 10 and 30, CityB with 5, year 2020), the lower
  bound 0 gives CityA sum 40 count 2 and CityB sum 5 count 1, and the lower bound 20
  gives CityA sum 30 count 1 and CityB sum 0 count 0.
\<close>

theorem masked_rows_count_for_nothing:
  "(masked_df0 tbl yr lower = Inr d \<longrightarrow>
      length d = length (src_rows tbl) \<and>
      (\<forall>i<length d.
         City (d ! i) = src_City (src_rows tbl ! i) \<and>
         (if \<exists>v. src_Market_Cap (src_rows tbl ! i) yr = Some v \<and> v < lower
          then Symbol (d ! i) = None \<and> Market_Cap (d ! i) = None \<and> Employees (d ! i) = None
          else Symbol (d ! i) = src_Symbol (src_rows tbl ! i) \<and>
               Market_Cap (d ! i) = src_Market_Cap (src_rows tbl ! i) yr \<and>
               Employees (d ! i) = src_Employees (src_rows tbl ! i) yr))) \<and>
   (create_df_main tbl yr lower = Inr t \<and> row \<in> set t \<and>
    kept = filter (\<lambda>r. src_City r = m_City row \<and>
                       \<not> (\<exists>v. src_Market_Cap r yr = Some v \<and> v < lower)) (src_rows tbl) \<longrightarrow>
      m_Market_Cap row = agg_sum (map (\<lambda>r. src_Market_Cap r yr) kept) \<and>
      m_Employees row = agg_sum (map (\<lambda>r. src_Employees r yr) kept) \<and>
      m_Symbol row = agg_count (map src_Symbol kept)) \<and>
   (\<exists>t0. create_df_main scenario_map 2020 0 = Inr t0 \<and>
      map (\<lambda>r. (m_City r, m_Market_Cap r, m_Symbol r)) t0 =
        [(''CityA'', 40, 2), (''CityB'', 5, 1)]) \<and>
   (\<exists>t20. create_df_main scenario_map 2020 20 = Inr t20 \<and>
      map (\<lambda>r. (m_City r, m_Market_Cap r, m_Symbol r)) t20 =
        [(''CityA'', 30, 1), (''CityB'', 0, 0)])"
proof (intro conjI impI)
  assume "masked_df0 tbl yr lower = Inr d"
  then have d: "d = map (\<lambda>r. mask_row lower (project_row yr r)) (src_rows tbl)"
    by (simp add: masked_df0_Inr)
  show "length d = length (src_rows tbl)" by (simp add: d)
  show "\<forall>i<length d.
         City (d ! i) = src_City (src_rows tbl ! i) \<and>
         (if \<exists>v. src_Market_Cap (src_rows tbl ! i) yr = Some v \<and> v < lower
          then Symbol (d ! i) = None \<and> Market_Cap (d ! i) = None \<and> Employees (d ! i) = None
          else Symbol (d ! i) = src_Symbol (src_rows tbl ! i) \<and>
               Market_Cap (d ! i) = src_Market_Cap (src_rows tbl ! i) yr \<and>
               Employees (d ! i) = src_Employees (src_rows tbl ! i) yr)"
    by (auto simp: d masked_row_fields below_iff)
next
  assume a: "create_df_main tbl yr lower = Inr t \<and> row \<in> set t \<and>
    kept = filter (\<lambda>r. src_City r = m_City row \<and>
                       \<not> (\<exists>v. src_Market_Cap r yr = Some v \<and> v < lower)) (src_rows tbl)"
  then obtain d where d: "masked_df0 tbl yr lower = Inr d"
    and g: "agg_group d (m_City row) = Inr row"
    using create_df_main_member [of tbl yr lower t row] by blast
  have d': "d = map (\<lambda>r. mask_row lower (project_row yr r)) (src_rows tbl)"
    using d by (simp add: masked_df0_Inr)
  have k: "kept = filter (\<lambda>r. src_City r = m_City row \<and> \<not> below (src_Market_Cap r yr) lower)
             (src_rows tbl)"
    using a by (simp add: below_iff)
  show "m_Market_Cap row = agg_sum (map (\<lambda>r. src_Market_Cap r yr) kept)"
    using agg_group_Inr(2) [OF g]
    by (simp add: agg_sum_def d' k present_masked [where g = "\<lambda>r. src_Market_Cap r yr"]
        masked_row_fields)
  show "m_Employees row = agg_sum (map (\<lambda>r. src_Employees r yr) kept)"
    using agg_group_Inr(3) [OF g]
    by (simp add: agg_sum_def d' k present_masked [where g = "\<lambda>r. src_Employees r yr"]
        masked_row_fields)
  show "m_Symbol row = agg_count (map src_Symbol kept)"
    using agg_group_Inr(4) [OF g]
    by (simp add: agg_count_def d' k present_masked [where g = src_Symbol]
        masked_row_fields)
next
  have a: "py_int (main_col 40) = Inr 1"
    unfolding main_col_def using py_int_main_eq [of 1 "40 + 0.0002"]
    by (simp add: power_divide)
  have b: "py_int (main_col 5) = Inr 0"
    unfolding main_col_def using py_int_main_eq [of 0 "5 + 0.0002"]
    by (simp add: power_divide)
  show "\<exists>t0. create_df_main scenario_map 2020 0 = Inr t0 \<and>
      map (\<lambda>r. (m_City r, m_Market_Cap r, m_Symbol r)) t0 =
        [(''CityA'', 40, 2), (''CityB'', 5, 1)]"
    using a b
    by (simp add: create_df_main_def masked_df0_def project_year_def scenario_map_def
        table_of_def company_def project_row_def mask_row_def below_def group_keys_def
        agg_group_def agg_sum_def agg_mean_def agg_count_def present_simps main_c_col_def
        Sunset_8_def Let_def)
next
  have a: "py_int (main_col 30) = Inr 1"
    unfolding main_col_def using py_int_main_eq [of 1 "30 + 0.0002"]
    by (simp add: power_divide)
  show "\<exists>t20. create_df_main scenario_map 2020 20 = Inr t20 \<and>
      map (\<lambda>r. (m_City r, m_Market_Cap r, m_Symbol r)) t20 =
        [(''CityA'', 30, 1), (''CityB'', 0, 0)]"
    using a main_c_col_zero
    by (simp add: create_df_main_def masked_df0_def project_year_def scenario_map_def
        table_of_def company_def project_row_def mask_row_def below_def group_keys_def
        agg_group_def agg_sum_def agg_mean_def agg_count_def present_simps main_c_col_def
        Sunset_8_def Let_def)
qed

text \<open>The scenario at the lower bound 20: the masked frame, and the row of CityA.\<close>

theorem masked_rows_count_for_nothing_witness:
  "\<exists>d t row. masked_df0 scenario_map 2020 20 = Inr d \<and> length d = 3 \<and>
     Symbol (d ! 0) = None \<and> Market_Cap (d ! 0) = None \<and> Employees (d ! 0) = None \<and>
     Symbol (d ! 1) = Some ''A2'' \<and> Market_Cap (d ! 1) = Some 30 \<and>
     create_df_main scenario_map 2020 20 = Inr t \<and> row \<in> set t \<and>
     m_City row = ''CityA'' \<and> m_Market_Cap row = 30 \<and> m_Employees row = 300 \<and>
     m_Symbol row = 1"
proof -
  let ?d = "map (\<lambda>r. mask_row 20 (project_row 2020 r)) (src_rows scenario_map)"
  let ?kept = "filter (\<lambda>r. src_City r = ''CityA'' \<and>
                       \<not> (\<exists>v. src_Market_Cap r 2020 = Some v \<and> v < 20)) (src_rows scenario_map)"
  have d: "masked_df0 scenario_map 2020 20 = Inr ?d"
    by (simp add: masked_df0_Inr scenario_map_def table_of_def)
  have rows: "src_rows scenario_map =
      [company ''A1'' ''CityA'' (Some 10) (Some 100),
       company ''A2'' ''CityA'' (Some 30) (Some 300),
       company ''B1'' ''CityB'' (Some 5) (Some 50)]"
    by (simp add: scenario_map_def table_of_def)
  have kept: "?kept = [company ''A2'' ''CityA'' (Some 30) (Some 300)]"
    by (simp add: rows company_def)
  obtain t where t: "create_df_main scenario_map 2020 20 = Inr t"
    and m: "map (\<lambda>r. (m_City r, m_Market_Cap r, m_Symbol r)) t =
        [(''CityA'', 30, 1), (''CityB'', 0, 0)]"
    using masked_rows_count_for_nothing [THEN conjunct2, THEN conjunct2, THEN conjunct2]
    by (elim exE conjE) (rule that)
  from m obtain row rest where tr: "t = row # rest" and c: "m_City row = ''CityA''"
    by (cases t) auto
  have mem: "row \<in> set t" by (simp add: tr)
  have one: "length ?d = length (src_rows scenario_map) \<and>
      (\<forall>i<length ?d.
         City (?d ! i) = src_City (src_rows scenario_map ! i) \<and>
         (if \<exists>v. src_Market_Cap (src_rows scenario_map ! i) 2020 = Some v \<and> v < 20
          then Symbol (?d ! i) = None \<and> Market_Cap (?d ! i) = None \<and>
               Employees (?d ! i) = None
          else Symbol (?d ! i) = src_Symbol (src_rows scenario_map ! i) \<and>
               Market_Cap (?d ! i) = src_Market_Cap (src_rows scenario_map ! i) 2020 \<and>
               Employees (?d ! i) = src_Employees (src_rows scenario_map ! i) 2020))"
    using masked_rows_count_for_nothing [of scenario_map 2020 20 ?d] d by blast
  then have l: "length ?d = 3" by (simp add: rows)
  have r0: "Symbol (?d ! 0) = None \<and> Market_Cap (?d ! 0) = None \<and> Employees (?d ! 0) = None"
    using one l by (auto simp: rows company_def)
  have "1 < length ?d" using l by simp
  then have "if \<exists>v. src_Market_Cap (src_rows scenario_map ! 1) 2020 = Some v \<and> v < 20
          then Symbol (?d ! 1) = None \<and> Market_Cap (?d ! 1) = None \<and>
               Employees (?d ! 1) = None
          else Symbol (?d ! 1) = src_Symbol (src_rows scenario_map ! 1) \<and>
               Market_Cap (?d ! 1) = src_Market_Cap (src_rows scenario_map ! 1) 2020 \<and>
               Employees (?d ! 1) = src_Employees (src_rows scenario_map ! 1) 2020"
    using one by blast
  then have r1: "Symbol (?d ! 1) = Some ''A2'' \<and> Market_Cap (?d ! 1) = Some 30"
    by (simp add: rows company_def)
  have "m_Market_Cap row = agg_sum (map (\<lambda>r. src_Market_Cap r 2020) ?kept) \<and>
      m_Employees row = agg_sum (map (\<lambda>r. src_Employees r 2020) ?kept) \<and>
      m_Symbol row = agg_count (map src_Symbol ?kept)"
  proof (rule masked_rows_count_for_nothing
      [where tbl = scenario_map and yr = 2020 and lower = 20 and t = t and row = row
         and kept = "?kept", THEN conjunct2, THEN conjunct1, THEN mp])
    show "create_df_main scenario_map 2020 20 = Inr t \<and> row \<in> set t \<and>
        ?kept = filter (\<lambda>r. src_City r = m_City row \<and>
                       \<not> (\<exists>v. src_Market_Cap r 2020 = Some v \<and> v < 20))
                  (src_rows scenario_map)"
      using t mem by (simp only: c)
  qed
  then have agg: "m_Market_Cap row = 30 \<and> m_Employees row = 300 \<and> m_Symbol row = 1"
    unfolding kept by (simp add: company_def agg_sum_def agg_count_def present_simps)
  show ?thesis
    using d l r0 r1 t mem c agg
    by (intro exI [of _ ?d] exI [of _ t] exI [of _ row]) simp
qed

subsection \<open>C6: a lower bound above every market cap\<close>

lemma present_all_None: "(\<And>c. c \<in> set cs \<Longrightarrow> c = None) \<Longrightarrow> present cs = []"
  by (induction cs) (auto simp: present_def)

lemma agg_groups_total:
  "(\<And>k. k \<in> set ks \<Longrightarrow> \<exists>r. agg_group d k = Inr r) \<Longrightarrow> \<exists>t. agg_groups d ks = Inr t"
proof (induction ks)
  case Nil
  then show ?case by simp
next
  case (Cons k ks)
  obtain r where r: "agg_group d k = Inr r" using Cons.prems [of k] by auto
  obtain t where t: "agg_groups d ks = Inr t" using Cons.IH Cons.prems by auto
  show ?case by (simp add: r t)
qed

lemma sub_c_col_zero: "sub_c_col 0 = Inr (Sunset8 0)"
proof -
  obtain j where "py_int_round (np_log10 (0 + 0.0002)) = Inr j" "j \<le> 0"
    using py_int_round_low [of "0 + 0.0002"] by auto
  then show ?thesis by (simp add: sub_c_col_def Sunset_8_def max_def)
qed

lemma sub_row_of_fields:
  "Symbol (sub_row_of c r) = Symbol r" "City (sub_row_of c r) = City r"
  "Market_Cap (sub_row_of c r) = Market_Cap r" "Employees (sub_row_of c r) = Employees r"
  "c_col (sub_row_of c r) = c"
  by (simp_all add: sub_row_of_def df0_row.defs sub_row.defs)

text \<open>With the lower bound above every market cap of the year, no row keeps one.\<close>

lemma above_all_masks_cap:
  assumes "\<forall>r\<in>set rs. \<forall>v. src_Market_Cap r yr = Some v \<longrightarrow> v < lower" "r \<in> set rs"
  shows "Market_Cap (mask_row lower (project_row yr r)) = None"
  using assms by (cases "src_Market_Cap r yr") (auto simp: masked_row_fields below_iff)

lemma above_all_masks_rest:
  assumes "\<forall>r\<in>set rs. \<forall>v. src_Market_Cap r yr = Some v \<longrightarrow> v < lower" "r \<in> set rs"
    "src_Market_Cap r yr \<noteq> None"
  shows "Symbol (mask_row lower (project_row yr r)) = None"
    and "Employees (mask_row lower (project_row yr r)) = None"
  using assms by (auto simp: masked_row_fields below_iff)

lemma above_every_cap:
  "yr \<in> set (year_columns tbl) \<and>
   (\<forall>r\<in>set (src_rows tbl). \<forall>v. src_Market_Cap r yr = Some v \<longrightarrow> v < lower) \<longrightarrow>
     (\<exists>t. create_df_main tbl yr lower = Inr t \<and>
        map m_City t = sort (remdups (map src_City (src_rows tbl))) \<and>
        (\<forall>row\<in>set t. m_Market_Cap row = 0 \<and>
           ((\<forall>r\<in>set (src_rows tbl). src_City r = m_City row \<longrightarrow> src_Market_Cap r yr \<noteq> None)
            \<longrightarrow> m_Employees row = 0 \<and> m_Symbol row = 0))) \<and>
     (\<exists>d. create_df_sub tbl yr cty lower = Inr d \<and>
        length d = length (filter (\<lambda>r. src_City r = cty) (src_rows tbl)) \<and>
        (\<forall>row\<in>set d. City row = cty \<and> Market_Cap row = None \<and>
           ((\<forall>r\<in>set (src_rows tbl). src_City r = cty \<longrightarrow> src_Market_Cap r yr \<noteq> None)
            \<longrightarrow> Symbol row = None \<and> Employees row = None)))"
proof (intro impI)
  assume a: "yr \<in> set (year_columns tbl) \<and>
   (\<forall>r\<in>set (src_rows tbl). \<forall>v. src_Market_Cap r yr = Some v \<longrightarrow> v < lower)"
  let ?rs = "src_rows tbl"
  let ?m = "\<lambda>r. mask_row lower (project_row yr r)"
  let ?d = "map ?m ?rs"
  have above: "\<forall>r\<in>set ?rs. \<forall>v. src_Market_Cap r yr = Some v \<longrightarrow> v < lower"
    using a by blast
  have d: "masked_df0 tbl yr lower = Inr ?d" using a by (simp add: masked_df0_Inr)
  have caps: "present (map Market_Cap (filter (\<lambda>r. City r = k) ?d)) = []" for k
    by (rule present_all_None) (auto simp: above_all_masks_cap [OF above])
  have zero: "agg_sum (map Market_Cap (filter (\<lambda>r. City r = k) ?d)) = 0" for k
    by (simp add: agg_sum_def caps)
  have grp: "\<exists>r. agg_group ?d k = Inr r" for k
    by (simp add: agg_group_def Let_def zero main_c_col_zero)
  obtain t where g: "agg_groups ?d (group_keys ?d) = Inr t"
    using agg_groups_total [of "group_keys ?d" ?d] grp by blast
  have t: "create_df_main tbl yr lower = Inr t" by (simp add: create_df_main_def d g)
  have rows: "m_Market_Cap row = 0 \<and>
           ((\<forall>r\<in>set ?rs. src_City r = m_City row \<longrightarrow> src_Market_Cap r yr \<noteq> None)
            \<longrightarrow> m_Employees row = 0 \<and> m_Symbol row = 0)" if rw: "row \<in> set t" for row
  proof -
    obtain k where k: "agg_group ?d k = Inr row" using agg_groups_member [OF g rw] by blast
    have c: "m_City row = k" using k by (rule agg_group_Inr)
    have m: "m_Market_Cap row = 0" using agg_group_Inr(2) [OF k] by (simp add: zero)
    have "m_Employees row = 0 \<and> m_Symbol row = 0"
      if all: "\<forall>r\<in>set ?rs. src_City r = m_City row \<longrightarrow> src_Market_Cap r yr \<noteq> None"
    proof -
      have "present (map Employees (filter (\<lambda>r. City r = k) ?d)) = []"
        using all c
        by (intro present_all_None) (auto simp: above_all_masks_rest [OF above] masked_row_fields(1))
      moreover have "present (map Symbol (filter (\<lambda>r. City r = k) ?d)) = []"
        using all c
        by (intro present_all_None) (auto simp: above_all_masks_rest [OF above] masked_row_fields(1))
      ultimately show ?thesis
        using agg_group_Inr(3,4) [OF k] by (simp add: agg_sum_def agg_count_def)
    qed
    then show ?thesis using m by blast
  qed
  have main: "\<exists>t. create_df_main tbl yr lower = Inr t \<and>
        map m_City t = sort (remdups (map src_City (src_rows tbl))) \<and>
        (\<forall>row\<in>set t. m_Market_Cap row = 0 \<and>
           ((\<forall>r\<in>set (src_rows tbl). src_City r = m_City row \<longrightarrow> src_Market_Cap r yr \<noteq> None)
            \<longrightarrow> m_Employees row = 0 \<and> m_Symbol row = 0))"
    using t create_df_main_Cities [OF t] rows by blast
  let ?df1 = "filter (\<lambda>r. City r = cty) ?d"
  let ?sub = "map (sub_row_of (Sunset8 0)) ?df1"
  have s: "create_df_sub tbl yr cty lower = Inr ?sub"
    by (simp add: create_df_sub_def d Let_def zero sub_c_col_zero)
  have len: "length ?sub = length (filter (\<lambda>r. src_City r = cty) ?rs)"
    by (simp add: filter_map comp_def masked_row_fields(1))
  have srows: "City row = cty \<and> Market_Cap row = None \<and>
           ((\<forall>r\<in>set ?rs. src_City r = cty \<longrightarrow> src_Market_Cap r yr \<noteq> None)
            \<longrightarrow> Symbol row = None \<and> Employees row = None)" if rw: "row \<in> set ?sub" for row
  proof -
    obtain r where r: "r \<in> set ?rs" "src_City r = cty" "row = sub_row_of (Sunset8 0) (?m r)"
      using rw by (auto simp: masked_row_fields(1))
    show ?thesis
      using r above_all_masks_cap [OF above r(1)] above_all_masks_rest [OF above r(1)]
      by (auto simp: sub_row_of_fields masked_row_fields(1))
  qed
  have sub: "\<exists>d. create_df_sub tbl yr cty lower = Inr d \<and>
        length d = length (filter (\<lambda>r. src_City r = cty) (src_rows tbl)) \<and>
        (\<forall>row\<in>set d. City row = cty \<and> Market_Cap row = None \<and>
           ((\<forall>r\<in>set (src_rows tbl). src_City r = cty \<longrightarrow> src_Market_Cap r yr \<noteq> None)
            \<longrightarrow> Symbol row = None \<and> Employees row = None))"
    using s len srows by blast
  show "(\<exists>t. create_df_main tbl yr lower = Inr t \<and>
        map m_City t = sort (remdups (map src_City (src_rows tbl))) \<and>
        (\<forall>row\<in>set t. m_Market_Cap row = 0 \<and>
           ((\<forall>r\<in>set (src_rows tbl). src_City r = m_City row \<longrightarrow> src_Market_Cap r yr \<noteq> None)
            \<longrightarrow> m_Employees row = 0 \<and> m_Symbol row = 0))) \<and>
     (\<exists>d. create_df_sub tbl yr cty lower = Inr d \<and>
        length d = length (filter (\<lambda>r. src_City r = cty) (src_rows tbl)) \<and>
        (\<forall>row\<in>set d. City row = cty \<and> Market_Cap row = None \<and>
           ((\<forall>r\<in>set (src_rows tbl). src_City r = cty \<longrightarrow> src_Market_Cap r yr \<noteq> None)
            \<longrightarrow> Symbol row = None \<and> Employees row = None)))"
    using main sub by (rule conjI)
qed

lemma present_nonempty: "c \<in> set cs \<Longrightarrow> c \<noteq> None \<Longrightarrow> present cs \<noteq> []"
  by (induction cs) (auto simp: present_def)

lemma unmasked_row:
  assumes "masked_df0 tbl yr lower = Inr d" "i < length d"
    "src_Market_Cap (src_rows tbl ! i) yr = None \<or>
     src_Market_Cap (src_rows tbl ! i) yr = Some lower"
  shows "d ! i = project_row yr (src_rows tbl ! i)"
proof -
  have d: "d = map (\<lambda>r. mask_row lower (project_row yr r)) (src_rows tbl)"
    using assms(1) by (simp add: masked_df0_Inr)
  have "\<not> below (src_Market_Cap (src_rows tbl ! i) yr) lower"
    using assms(3) by (auto simp: below_def)
  then show ?thesis using assms(2) by (simp add: d mask_row_def project_row_def)
qed

lemma unmasked_row_counts:
  assumes "create_df_main tbl yr lower = Inr t" "row \<in> set t" "r \<in> set (src_rows tbl)"
    "src_City r = m_City row" "src_Symbol r \<noteq> None"
    "src_Market_Cap r yr = None \<or> src_Market_Cap r yr = Some lower"
  shows "0 < m_Symbol row"
proof -
  obtain d where d: "masked_df0 tbl yr lower = Inr d"
    and g: "agg_group d (m_City row) = Inr row"
    using create_df_main_member [OF assms(1,2)] by blast
  have d': "d = map (\<lambda>r. mask_row lower (project_row yr r)) (src_rows tbl)"
    using d by (simp add: masked_df0_Inr)
  have nb: "\<not> below (src_Market_Cap r yr) lower" using assms(6) by (auto simp: below_def)
  let ?kept = "filter (\<lambda>r. src_City r = m_City row \<and> \<not> below (src_Market_Cap r yr) lower)
                 (src_rows tbl)"
  have "m_Symbol row = length (present (map src_Symbol ?kept))"
    using agg_group_Inr(4) [OF g]
    by (simp add: agg_count_def d' present_masked [where g = src_Symbol] masked_row_fields)
  moreover have "src_Symbol r \<in> set (map src_Symbol ?kept)" using assms(3,4) nb by simp
  then have "present (map src_Symbol ?kept) \<noteq> []" using assms(5) by (rule present_nonempty)
  ultimately show ?thesis by simp
qed

text \<open>
  C6, as the code has it. Let the year have its columns and the lower bound be strictly
  greater than every market cap of the year. Then \<^verbatim>\<open>create_df\<close> raises nothing on either
  branch. The frame of the main plot has a row for every city, each with market-cap sum
  0, and with employee sum 0 and count 0 in every city whose rows all have a market cap.
  The frame of the subplot keeps the rows of the city, one for each row of the loaded
  table, all without a market cap, and without symbol and employees when every row of
  the city has a market cap in the loaded table.

  For every lower bound, a row whose market cap is missing or equal to the lower bound is
  not masked (the comparison of line 107 is strict, and false on a missing value): it
  stays in the masked frame as it was selected, with its symbol and its employees, and
  when it has a symbol its city has a count of at least 1.
\<close>

theorem above_every_cap_nothing_qualifies:
  "(yr \<in> set (year_columns tbl) \<and>
   (\<forall>r\<in>set (src_rows tbl). \<forall>v. src_Market_Cap r yr = Some v \<longrightarrow> v < lower) \<longrightarrow>
     (\<exists>t. create_df_main tbl yr lower = Inr t \<and>
        map m_City t = sort (remdups (map src_City (src_rows tbl))) \<and>
        (\<forall>row\<in>set t. m_Market_Cap row = 0 \<and>
           ((\<forall>r\<in>set (src_rows tbl). src_City r = m_City row \<longrightarrow> src_Market_Cap r yr \<noteq> None)
            \<longrightarrow> m_Employees row = 0 \<and> m_Symbol row = 0))) \<and>
     (\<exists>d. create_df_sub tbl yr cty lower = Inr d \<and>
        length d = length (filter (\<lambda>r. src_City r = cty) (src_rows tbl)) \<and>
        (\<forall>row\<in>set d. City row = cty \<and> Market_Cap row = None \<and>
           ((\<forall>r\<in>set (src_rows tbl). src_City r = cty \<longrightarrow> src_Market_Cap r yr \<noteq> None)
            \<longrightarrow> Symbol row = None \<and> Employees row = None)))) \<and>
   (masked_df0 tbl yr lower = Inr d \<and> i < length d \<and>
    (src_Market_Cap (src_rows tbl ! i) yr = None \<or>
     src_Market_Cap (src_rows tbl ! i) yr = Some lower) \<longrightarrow>
      d ! i = project_row yr (src_rows tbl ! i)) \<and>
   (create_df_main tbl yr lower = Inr t \<and> row \<in> set t \<and> r \<in> set (src_rows tbl) \<and>
    src_City r = m_City row \<and> src_Symbol r \<noteq> None \<and>
    (src_Market_Cap r yr = None \<or> src_Market_Cap r yr = Some lower) \<longrightarrow>
      0 < m_Symbol row)"
  using above_every_cap [of yr tbl lower cty] unmasked_row [of tbl yr lower d i]
    unmasked_row_counts [of tbl yr lower t row r]
  by blast

text \<open>The table with a missing market cap: above every market cap at the lower bound 6
  and the city CityA; at the lower bound 5 the row with market cap 5 and the row without
  a market cap stay as they were, and CityA has a count of at least 1.\<close>

lemma gap_rows:
  "src_rows gap_map =
     [company ''A1'' ''CityA'' (Some 5) (Some 10), company ''B1'' ''CityB'' None (Some 7)]"
  "year_columns gap_map = [2019, 2020, 2021, 2022]"
  by (simp_all add: gap_map_def table_of_def)

lemma main_c_col_5: "main_c_col (main_col 5) = Inr (Sunset8 0)"
  unfolding main_col_def main_c_col_def using py_int_main_eq [of 0 "5 + 0.0002"]
  by (simp add: power_divide Sunset_8_def)

lemma gap_main_5:
  "create_df_main gap_map 2022 5 =
  Inr [\<lparr>m_City = ''CityA'', m_Market_Cap = 5, m_Employees = 10,
        m_x = Some 0, m_y = Some 0, m_Symbol = 1, m_col = main_col 5,
        m_c_col = Sunset8 0, m_circle_size = np_log1p_times3 (Some 10)\<rparr>,
       \<lparr>m_City = ''CityB'', m_Market_Cap = 0, m_Employees = 7,
        m_x = Some 0, m_y = Some 0, m_Symbol = 1, m_col = main_col 0,
        m_c_col = Sunset8 0, m_circle_size = np_log1p_times3 (Some 7)\<rparr>]"
  using main_c_col_5 main_c_col_zero
  by (simp add: create_df_main_def masked_df0_def project_year_def gap_map_def
      table_of_def company_def project_row_def mask_row_def below_def group_keys_def
      agg_group_def agg_sum_def agg_mean_def agg_count_def present_simps Let_def)

lemma gap_main_6:
  "create_df_main gap_map 2022 6 =
  Inr [\<lparr>m_City = ''CityA'', m_Market_Cap = 0, m_Employees = 0,
        m_x = Some 0, m_y = Some 0, m_Symbol = 0, m_col = main_col 0,
        m_c_col = Sunset8 0, m_circle_size = np_log1p_times3 (Some 0)\<rparr>,
       \<lparr>m_City = ''CityB'', m_Market_Cap = 0, m_Employees = 7,
        m_x = Some 0, m_y = Some 0, m_Symbol = 1, m_col = main_col 0,
        m_c_col = Sunset8 0, m_circle_size = np_log1p_times3 (Some 7)\<rparr>]"
  using main_c_col_zero
  by (simp add: create_df_main_def masked_df0_def project_year_def gap_map_def
      table_of_def company_def project_row_def mask_row_def below_def group_keys_def
      agg_group_def agg_sum_def agg_mean_def agg_count_def present_simps Let_def)

lemma gap_sub_6:
  "create_df_sub gap_map 2022 ''CityA'' 6 =
  Inr [\<lparr>Symbol = None, City = ''CityA'', x_col = Some 0, y_col = Some 0,
        Market_Cap = None, Employees = None, c_col = Sunset8 0,
        circle_size = np_log1p_times3 None\<rparr>]"
  using sub_c_col_zero
  by (simp add: create_df_sub_def masked_df0_def project_year_def gap_map_def
      table_of_def company_def project_row_def mask_row_def below_def
      agg_sum_def present_simps sub_row_of_def df0_row.defs sub_row.defs Let_def)

theorem above_every_cap_nothing_qualifies_witness:
  "2022 \<in> set (year_columns gap_map) \<and>
   list_all (\<lambda>r. \<forall>v. src_Market_Cap r 2022 = Some v \<longrightarrow> v < 6) (src_rows gap_map) \<and>
   (\<exists>t. create_df_main gap_map 2022 6 = Inr t \<and>
        map m_City t = [''CityA'', ''CityB''] \<and>
        (\<forall>row\<in>set t. m_Market_Cap row = 0 \<and>
           (m_City row = ''CityA'' \<longrightarrow> m_Employees row = 0 \<and> m_Symbol row = 0))) \<and>
   (\<exists>d. create_df_sub gap_map 2022 ''CityA'' 6 = Inr d \<and> length d = 1 \<and>
        (\<forall>row\<in>set d. City row = ''CityA'' \<and> Market_Cap row = None \<and>
           Symbol row = None \<and> Employees row = None)) \<and>
   (\<exists>d. masked_df0 gap_map 2022 5 = Inr d \<and> length d = 2 \<and>
        src_Market_Cap (src_rows gap_map ! 0) 2022 = Some 5 \<and>
        d ! 0 = project_row 2022 (src_rows gap_map ! 0) \<and> Symbol (d ! 0) = Some ''A1'' \<and>
        src_Market_Cap (src_rows gap_map ! 1) 2022 = None \<and>
        d ! 1 = project_row 2022 (src_rows gap_map ! 1) \<and> Symbol (d ! 1) = Some ''B1'' \<and>
        Employees (d ! 1) = Some 7) \<and>
   (\<exists>t row. create_df_main gap_map 2022 5 = Inr t \<and> row \<in> set t \<and>
        m_City row = ''CityA'' \<and> 0 < m_Symbol row)"
proof -
  have y: "2022 \<in> set (year_columns gap_map)" by (simp add: gap_rows)
  have h: "\<forall>r\<in>set (src_rows gap_map). \<forall>v. src_Market_Cap r 2022 = Some v \<longrightarrow> v < 6"
    by (simp add: gap_rows company_def)
  have k: "sort (remdups (map src_City (src_rows gap_map))) = [''CityA'', ''CityB'']"
    by (simp add: gap_rows company_def)
  have a: "\<forall>r\<in>set (src_rows gap_map). src_City r = ''CityA'' \<longrightarrow> src_Market_Cap r 2022 \<noteq> None"
    by (simp add: gap_rows company_def)
  have l: "length (filter (\<lambda>r. src_City r = ''CityA'') (src_rows gap_map)) = 1"
    by (simp add: gap_rows company_def)
  note above = above_every_cap_nothing_qualifies
    [where yr = 2022 and tbl = gap_map and lower = 6 and cty = "''CityA''", THEN conjunct1]
  from above y h
  have "(\<exists>t. create_df_main gap_map 2022 6 = Inr t \<and>
        map m_City t = sort (remdups (map src_City (src_rows gap_map))) \<and>
        (\<forall>row\<in>set t. m_Market_Cap row = 0 \<and>
           ((\<forall>r\<in>set (src_rows gap_map). src_City r = m_City row \<longrightarrow>
               src_Market_Cap r 2022 \<noteq> None)
            \<longrightarrow> m_Employees row = 0 \<and> m_Symbol row = 0))) \<and>
     (\<exists>d. create_df_sub gap_map 2022 ''CityA'' 6 = Inr d \<and>
        length d = length (filter (\<lambda>r. src_City r = ''CityA'') (src_rows gap_map)) \<and>
        (\<forall>row\<in>set d. City row = ''CityA'' \<and> Market_Cap row = None \<and>
           ((\<forall>r\<in>set (src_rows gap_map). src_City r = ''CityA'' \<longrightarrow>
               src_Market_Cap r 2022 \<noteq> None)
            \<longrightarrow> Symbol row = None \<and> Employees row = None)))"
    by blast
  then have 1: "(\<exists>t. create_df_main gap_map 2022 6 = Inr t \<and>
        map m_City t = [''CityA'', ''CityB''] \<and>
        (\<forall>row\<in>set t. m_Market_Cap row = 0 \<and>
           (m_City row = ''CityA'' \<longrightarrow> m_Employees row = 0 \<and> m_Symbol row = 0))) \<and>
   (\<exists>d. create_df_sub gap_map 2022 ''CityA'' 6 = Inr d \<and> length d = 1 \<and>
        (\<forall>row\<in>set d. City row = ''CityA'' \<and> Market_Cap row = None \<and>
           Symbol row = None \<and> Employees row = None))"
    unfolding k l using a by metis
  have 2: "list_all (\<lambda>r. \<forall>v. src_Market_Cap r 2022 = Some v \<longrightarrow> v < 6) (src_rows gap_map)"
    using h by (simp add: list_all_iff)
  let ?d = "map (\<lambda>r. mask_row 5 (project_row 2022 r)) (src_rows gap_map)"
  have d: "masked_df0 gap_map 2022 5 = Inr ?d" by (simp add: masked_df0_Inr gap_rows)
  have ld: "length ?d = 2" by (simp add: gap_rows)
  have c0: "src_Market_Cap (src_rows gap_map ! 0) 2022 = Some 5"
    and c1: "src_Market_Cap (src_rows gap_map ! 1) 2022 = None"
    by (simp_all add: gap_rows company_def)
  have r0: "?d ! 0 = project_row 2022 (src_rows gap_map ! 0)"
  proof (rule above_every_cap_nothing_qualifies
      [where yr = 2022 and tbl = gap_map and lower = 5 and d = ?d and i = 0,
        THEN conjunct2, THEN conjunct1, THEN mp])
    show "masked_df0 gap_map 2022 5 = Inr ?d \<and> 0 < length ?d \<and>
        (src_Market_Cap (src_rows gap_map ! 0) 2022 = None \<or>
         src_Market_Cap (src_rows gap_map ! 0) 2022 = Some 5)"
      using d ld c0 by simp
  qed
  have r1: "?d ! 1 = project_row 2022 (src_rows gap_map ! 1)"
  proof (rule above_every_cap_nothing_qualifies
      [where yr = 2022 and tbl = gap_map and lower = 5 and d = ?d and i = 1,
        THEN conjunct2, THEN conjunct1, THEN mp])
    show "masked_df0 gap_map 2022 5 = Inr ?d \<and> 1 < length ?d \<and>
        (src_Market_Cap (src_rows gap_map ! 1) 2022 = None \<or>
         src_Market_Cap (src_rows gap_map ! 1) 2022 = Some 5)"
      using d ld c1 by simp
  qed
  have f: "Symbol (?d ! 0) = Some ''A1''" "Symbol (?d ! 1) = Some ''B1''"
    "Employees (?d ! 1) = Some 7"
    unfolding r0 r1 by (simp_all add: gap_rows company_def project_row_def)
  have 3: "\<exists>d. masked_df0 gap_map 2022 5 = Inr d \<and> length d = 2 \<and>
        src_Market_Cap (src_rows gap_map ! 0) 2022 = Some 5 \<and>
        d ! 0 = project_row 2022 (src_rows gap_map ! 0) \<and> Symbol (d ! 0) = Some ''A1'' \<and>
        src_Market_Cap (src_rows gap_map ! 1) 2022 = None \<and>
        d ! 1 = project_row 2022 (src_rows gap_map ! 1) \<and> Symbol (d ! 1) = Some ''B1'' \<and>
        Employees (d ! 1) = Some 7"
    using d ld c0 c1 r0 r1 f by (intro exI [of _ ?d]) (simp only: simp_thms)
  let ?r = "company ''A1'' ''CityA'' (Some 5) (Some 10)"
  let ?row = "\<lparr>m_City = ''CityA'', m_Market_Cap = 5, m_Employees = 10,
           m_x = Some 0, m_y = Some 0, m_Symbol = 1, m_col = main_col 5,
           m_c_col = Sunset8 0, m_circle_size = np_log1p_times3 (Some 10)\<rparr>"
  obtain t where t: "create_df_main gap_map 2022 5 = Inr t" and m: "?row \<in> set t"
    using gap_main_5 by simp
  have "0 < m_Symbol ?row"
  proof (rule above_every_cap_nothing_qualifies
      [where yr = 2022 and tbl = gap_map and lower = 5 and t = t and row = ?row and r = ?r,
        THEN conjunct2, THEN conjunct2, THEN mp])
    show "create_df_main gap_map 2022 5 = Inr t \<and> ?row \<in> set t \<and>
        ?r \<in> set (src_rows gap_map) \<and> src_City ?r = m_City ?row \<and> src_Symbol ?r \<noteq> None \<and>
        (src_Market_Cap ?r 2022 = None \<or> src_Market_Cap ?r 2022 = Some 5)"
      using t m by (simp add: gap_rows company_def)
  qed
  then have 4: "\<exists>t row. create_df_main gap_map 2022 5 = Inr t \<and> row \<in> set t \<and>
        m_City row = ''CityA'' \<and> 0 < m_Symbol row"
    using t m by (intro exI [of _ t] exI [of _ ?row]) simp
  show ?thesis using y 1 2 3 4 by (intro conjI) blast+
qed

text \<open>
  C6 as stated fails on the table of CityA (market cap 5) and CityB (no market cap),
  whose largest market cap is 5. At the lower bound 5 the company of CityA is not masked
  (the comparison is strict): sum 5, count 1. At the lower bound 6 the company of CityB
  still counts, with 7 employees, and the frame of the subplot for CityA has one row, not
  none.
\<close>

theorem at_the_largest_cap_and_missing_caps:
  "create_df_main gap_map 2022 5 =
     Inr [\<lparr>m_City = ''CityA'', m_Market_Cap = 5, m_Employees = 10,
           m_x = Some 0, m_y = Some 0, m_Symbol = 1, m_col = main_col 5,
           m_c_col = Sunset8 0, m_circle_size = np_log1p_times3 (Some 10)\<rparr>,
          \<lparr>m_City = ''CityB'', m_Market_Cap = 0, m_Employees = 7,
           m_x = Some 0, m_y = Some 0, m_Symbol = 1, m_col = main_col 0,
           m_c_col = Sunset8 0, m_circle_size = np_log1p_times3 (Some 7)\<rparr>] \<and>
   create_df_main gap_map 2022 6 =
     Inr [\<lparr>m_City = ''CityA'', m_Market_Cap = 0, m_Employees = 0,
           m_x = Some 0, m_y = Some 0, m_Symbol = 0, m_col = main_col 0,
           m_c_col = Sunset8 0, m_circle_size = np_log1p_times3 (Some 0)\<rparr>,
          \<lparr>m_City = ''CityB'', m_Market_Cap = 0, m_Employees = 7,
           m_x = Some 0, m_y = Some 0, m_Symbol = 1, m_col = main_col 0,
           m_c_col = Sunset8 0, m_circle_size = np_log1p_times3 (Some 7)\<rparr>] \<and>
   create_df_sub gap_map 2022 ''CityA'' 6 =
     Inr [\<lparr>Symbol = None, City = ''CityA'', x_col = Some 0, y_col = Some 0,
           Market_Cap = None, Employees = None, c_col = Sunset8 0,
           circle_size = np_log1p_times3 None\<rparr>]"
  by (intro conjI) (rule gap_main_5 gap_main_6 gap_sub_6)+

subsection \<open>C9: the loaded table\<close>

lemma length_create_df_frames: "length mem \<le> length (snd (create_df_frames mem src yr lower))"
  by (auto simp: create_df_frames_def new_frame_def Let_def split: sum.splits)

text \<open>Lines 97-107 write only into the frames they have made.\<close>

lemma create_df_frames_keeps:
  "a < length mem \<Longrightarrow> snd (create_df_frames mem src yr lower) ! a = mem ! a"
  by (auto simp: create_df_frames_def new_frame_def Let_def nth_append split: sum.splits)

lemma length_recompute: "length mem \<le> length (recompute src mem calls)"
proof (induction calls arbitrary: mem)
  case Nil
  then show ?case by (simp add: recompute_def)
next
  case (Cons c calls)
  obtain yr lower where c: "c = (yr, lower)" by (cases c)
  have "length mem \<le> length (snd (create_df_frames mem src yr lower))"
    by (rule length_create_df_frames)
  also have "\<dots> \<le> length (recompute src (snd (create_df_frames mem src yr lower)) calls)"
    by (rule Cons.IH)
  finally show ?case by (simp add: recompute_def c)
qed

lemma recompute_keeps: "a < length mem \<Longrightarrow> recompute src mem calls ! a = mem ! a"
proof (induction calls arbitrary: mem)
  case Nil
  then show ?case by (simp add: recompute_def)
next
  case (Cons c calls)
  obtain yr lower where c: "c = (yr, lower)" by (cases c)
  let ?m = "snd (create_df_frames mem src yr lower)"
  have l: "a < length ?m" using Cons.prems length_create_df_frames [of mem src yr lower] by simp
  have "recompute src mem (c # calls) ! a = recompute src ?m calls ! a"
    by (simp add: recompute_def c)
  also have "\<dots> = ?m ! a" using l by (rule Cons.IH)
  also have "\<dots> = mem ! a" using Cons.prems by (rule create_df_frames_keeps)
  finally show ?case .
qed

lemma map_of_year_columns:
  "map_of (concat (map (year_columns_of rs) yrs)) (Col_Market_Cap_year yr) =
     (if yr \<in> set yrs then Some (map (\<lambda>r. num_cell (src_Market_Cap r yr)) rs) else None)"
  "map_of (concat (map (year_columns_of rs) yrs)) (Col_Employees_year yr) =
     (if yr \<in> set yrs then Some (map (\<lambda>r. num_cell (src_Employees r yr)) rs) else None)"
  by (induction yrs) (auto simp: year_columns_of_def)

lemma map_of_frame_of_table:
  "map_of (frame_of_table tbl) Col_Symbol = Some (map (\<lambda>r. str_cell (src_Symbol r)) (src_rows tbl))"
  "map_of (frame_of_table tbl) Col_City = Some (map (\<lambda>r. Str (src_City r)) (src_rows tbl))"
  "map_of (frame_of_table tbl) Col_x = Some (map (\<lambda>r. num_cell (src_x r)) (src_rows tbl))"
  "map_of (frame_of_table tbl) Col_y = Some (map (\<lambda>r. num_cell (src_y r)) (src_rows tbl))"
  "map_of (frame_of_table tbl) (Col_Market_Cap_year yr) =
     (if yr \<in> set (year_columns tbl)
      then Some (map (\<lambda>r. num_cell (src_Market_Cap r yr)) (src_rows tbl)) else None)"
  "map_of (frame_of_table tbl) (Col_Employees_year yr) =
     (if yr \<in> set (year_columns tbl)
      then Some (map (\<lambda>r. num_cell (src_Employees r yr)) (src_rows tbl)) else None)"
  by (simp_all add: frame_of_table_def map_of_year_columns)

lemma blank_map: "blank (map p rs) (map g rs) = map (\<lambda>r. if p r then Missing else g r) rs"
  by (induction rs) (simp_all add: blank_def)

lemma no_Str_num_cell: "\<not> list_ex is_Str (map (\<lambda>r. num_cell (f r)) rs)"
  by (induction rs) (auto simp: is_Str_def num_cell_def split: option.splits)

lemma cell_below_num_cell: "cell_below lower (num_cell c) = below c lower"
  by (cases c) (simp_all add: cell_below_def num_cell_def below_def)

text \<open>On a memory that holds the loaded table, lines 97-107 leave in \<^verbatim>\<open>df0\<close> the frame
  of the masked rows, or raise before making a frame.\<close>

lemma create_df_frames_table:
  assumes "src < length mem" "mem ! src = frame_of_table tbl"
  shows "create_df_frames mem src yr lower =
     (if yr \<in> set (year_columns tbl)
      then (Inr (Suc (length mem)),
            mem @ [selection tbl yr,
                   frame_of_df0 (map (\<lambda>r. mask_row lower (project_row yr r)) (src_rows tbl))])
      else (Inl KeyError, mem))"
proof (cases "yr \<in> set (year_columns tbl)")
  case False
  then show ?thesis
    by (simp add: create_df_frames_def assms(2) map_of_frame_of_table)
next
  case True
  have sel: "getitem_columns (mem ! src)
             [Col_Symbol, Col_City, Col_x, Col_y,
              Col_Market_Cap_year yr, Col_Employees_year yr] = Inr (selection tbl yr)"
    using True by (simp add: assms(2) map_of_frame_of_table selection_def)
  let ?ren = "rename_columns (year_names yr) (selection tbl yr)"
  have ren: "?ren = frame_of_df0 (map (project_row yr) (src_rows tbl))"
    by (simp add: rename_columns_def selection_def year_names_def frame_of_df0_def
        project_row_def comp_def)
  have mask: "below_mask ?ren lower =
      Inr (map (\<lambda>r. below (src_Market_Cap r yr) lower) (src_rows tbl))"
    by (simp add: ren below_mask_def frame_of_df0_def no_Str_num_cell cell_below_num_cell
        project_row_def comp_def)
  have asg: "loc_assign_nan (map (\<lambda>r. below (src_Market_Cap r yr) lower) (src_rows tbl))
       [Col_Symbol, Col_Market_Cap, Col_Employees] ?ren =
     Inr (frame_of_df0 (map (\<lambda>r. mask_row lower (project_row yr r)) (src_rows tbl)))"
    by (simp add: ren loc_assign_nan_def frame_of_df0_def comp_def blank_map
        mask_row_def project_row_def str_cell_def num_cell_def)
  show ?thesis
    using True unfolding create_df_frames_def sel
    by (simp add: new_frame_def Let_def nth_append mask asg list_update_append)
qed

text \<open>
  C9. A recomputation leaves every frame that was in memory before it as it was, and so
  does any sequence of recomputations: the renaming and the assignment of missing values
  are written into \<^verbatim>\<open>df0\<close>, a frame made by the recomputation itself, never into the
  loaded table. On a memory whose position \<open>src\<close> holds the loaded table, the frame left
  in \<^verbatim>\<open>df0\<close> is the masked working copy that \<open>masked_df0\<close> computes, next to the
  unmasked selection, and an exception is raised before any frame is made. No callback
  assigns \<^verbatim>\<open>us_company_map\<close>.
\<close>

theorem loaded_frame_never_written:
  "(a < length mem \<longrightarrow>
      snd (create_df_frames mem src yr lower) ! a = mem ! a \<and>
      recompute src mem calls ! a = mem ! a) \<and>
   (src < length mem \<and> mem ! src = frame_of_table tbl \<and> masked_df0 tbl yr lower = Inr d \<longrightarrow>
      create_df_frames mem src yr lower =
        (Inr (Suc (length mem)), mem @ [selection tbl yr, frame_of_df0 d])) \<and>
   (src < length mem \<and> mem ! src = frame_of_table tbl \<and> masked_df0 tbl yr lower = Inl e \<longrightarrow>
      create_df_frames mem src yr lower = (Inl e, mem)) \<and>
   us_company_map (snd (step ev s)) = us_company_map s \<and>
   us_company_map (run evs s) = us_company_map s"
proof (intro conjI impI)
  assume "a < length mem"
  then show "snd (create_df_frames mem src yr lower) ! a = mem ! a"
    by (rule create_df_frames_keeps)
next
  assume "a < length mem"
  then show "recompute src mem calls ! a = mem ! a" by (rule recompute_keeps)
next
  assume "src < length mem \<and> mem ! src = frame_of_table tbl \<and> masked_df0 tbl yr lower = Inr d"
  then show "create_df_frames mem src yr lower =
        (Inr (Suc (length mem)), mem @ [selection tbl yr, frame_of_df0 d])"
    by (auto simp: create_df_frames_table masked_df0_Inr)
next
  assume h: "src < length mem \<and> mem ! src = frame_of_table tbl \<and> masked_df0 tbl yr lower = Inl e"
  then have "yr \<notin> set (year_columns tbl) \<and> e = KeyError"
    by (auto simp: masked_df0_def project_year_def split: if_splits)
  then show "create_df_frames mem src yr lower = (Inl e, mem)"
    using h by (simp add: create_df_frames_table)
next
  show "us_company_map (snd (step ev s)) = us_company_map s" by (rule step_us_company_map)
  show "us_company_map (run evs s) = us_company_map s" by (rule run_us_company_map)
qed

text \<open>The scenario table at position 0, year 2020 and lower bound 20: the loaded frame
  stays, the selection holds 10, 30 and 5, and \<^verbatim>\<open>df0\<close> holds 30 between two missing
  cells; the year 2018 has no columns.\<close>

lemma scenario_rows:
  "src_rows scenario_map =
      [company ''A1'' ''CityA'' (Some 10) (Some 100),
       company ''A2'' ''CityA'' (Some 30) (Some 300),
       company ''B1'' ''CityB'' (Some 5) (Some 50)]"
  "year_columns scenario_map = [2019, 2020, 2021, 2022]"
  by (simp_all add: scenario_map_def table_of_def)

theorem loaded_frame_never_written_witness:
  "snd (create_df_frames [frame_of_table scenario_map] 0 2020 20) ! 0 =
     frame_of_table scenario_map \<and>
   recompute 0 [frame_of_table scenario_map] [(2020, 20), (2019, 0)] ! 0 =
     frame_of_table scenario_map \<and>
   (\<exists>d. masked_df0 scenario_map 2020 20 = Inr d \<and>
      create_df_frames [frame_of_table scenario_map] 0 2020 20 =
        (Inr 2, [frame_of_table scenario_map, selection scenario_map 2020, frame_of_df0 d]) \<and>
      map_of (selection scenario_map 2020) (Col_Market_Cap_year 2020) =
        Some [Num 10, Num 30, Num 5] \<and>
      map_of (frame_of_df0 d) Col_Market_Cap = Some [Missing, Num 30, Missing] \<and>
      map_of (frame_of_df0 d) Col_Symbol = Some [Missing, Str ''A2'', Missing]) \<and>
   masked_df0 scenario_map 2018 20 = Inl KeyError \<and>
   create_df_frames [frame_of_table scenario_map] 0 2018 20 =
     (Inl KeyError, [frame_of_table scenario_map])"
proof -
  let ?mem = "[frame_of_table scenario_map]"
  let ?d = "map (\<lambda>r. mask_row 20 (project_row 2020 r)) (src_rows scenario_map)"
  have l: "(0::nat) < length ?mem" by simp
  have t: "0 < length ?mem \<and> ?mem ! 0 = frame_of_table scenario_map" by simp
  have d: "masked_df0 scenario_map 2020 20 = Inr ?d"
    by (simp add: masked_df0_Inr scenario_rows)
  have k: "masked_df0 scenario_map 2018 20 = Inl KeyError"
    by (simp add: masked_df0_def project_year_def scenario_rows)
  note inst = loaded_frame_never_written
    [where a = 0 and mem = ?mem and src = 0 and tbl = scenario_map]
  have 1: "snd (create_df_frames ?mem 0 2020 20) ! 0 = ?mem ! 0"
    using inst [where yr = 2020 and lower = 20 and calls = "[]" and d = "[]" and e = KeyError] l
    by blast
  have 2: "recompute 0 ?mem [(2020, 20), (2019, 0)] ! 0 = ?mem ! 0"
    using inst [where yr = 2020 and lower = 20 and calls = "[(2020, 20), (2019, 0)]"
        and d = "[]" and e = KeyError] l
    by blast
  have 3: "create_df_frames ?mem 0 2020 20 =
        (Inr (Suc (length ?mem)), ?mem @ [selection scenario_map 2020, frame_of_df0 ?d])"
    using inst [where yr = 2020 and lower = 20 and calls = "[]" and d = ?d and e = KeyError] t d
    by blast
  have 4: "create_df_frames ?mem 0 2018 20 = (Inl KeyError, ?mem)"
    using inst [where yr = 2018 and lower = 20 and calls = "[]" and d = "[]" and e = KeyError] t k
    by blast
  have 5: "map_of (selection scenario_map 2020) (Col_Market_Cap_year 2020) =
        Some [Num 10, Num 30, Num 5]"
    by (simp add: selection_def scenario_rows company_def num_cell_def)
  have 6: "map_of (frame_of_df0 ?d) Col_Market_Cap = Some [Missing, Num 30, Missing] \<and>
      map_of (frame_of_df0 ?d) Col_Symbol = Some [Missing, Str ''A2'', Missing]"
    by (simp add: frame_of_df0_def scenario_rows company_def masked_row_fields below_def
        num_cell_def str_cell_def)
  show ?thesis using 1 2 3 4 5 6 d k by (intro conjI exI [of _ ?d]) simp_all
qed

subsection \<open>C3: both panels follow the parameters\<close>

lemma update_year_returns:
  assumes "update_year s = (None, s')"
  shows "year s' = wrap_year (year s + 1)" "market_cap_lower s' = market_cap_lower s"
    "city s' = city s"
    "create_df_main (us_company_map s) (wrap_year (year s + 1)) (market_cap_lower s) =
       Inr (main_source s')"
    "create_df_sub (us_company_map s) (wrap_year (year s + 1)) (city s) (market_cap_lower s) =
       Inr (sub_source s')"
  using assms by (auto simp: update_year_def Let_def split: sum.splits)





lemma demo_sub_san_jose_zero:
  "yr \<in> {2019, 2020, 2021, 2022} \<Longrightarrow> create_df_sub demo_map yr ''San Jose'' 0 =
     Inr [\<lparr>Symbol = Some ''CSCO'', City = ''San Jose'', x_col = Some 0, y_col = Some 0,
           Market_Cap = Some 200, Employees = Some 80000, c_col = Sunset8 2,
           circle_size = np_log1p_times3 (Some 80000)\<rparr>]"
proof -
  assume y: "yr \<in> {2019, 2020, 2021, 2022}"
  have a: "sub_c_col 200 = Inr (Sunset8 2)"
    unfolding sub_c_col_def using py_int_round_eq [of "200 + 0.0002" 2]
    by (simp add: power_divide Sunset_8_def)
  show ?thesis
    using a y
    by (auto simp add: create_df_sub_def masked_df0_def project_year_def demo_map_def
        table_of_def company_def project_row_def mask_row_def below_def
        agg_sum_def present_simps sub_row_of_def df0_row.defs sub_row.defs Let_def)
qed







subsection \<open>C5: a tick after the animation has stopped\<close>

lemma play_stops:
  assumes "toggle_inv s" "btn_label s = label_pause"
  shows "play s = (None, s\<lparr>btn_label := label_play, session_callbacks := [], callback := None\<rparr>)"
  using assms by (auto simp: toggle_inv_def play_def Let_def label_distinct label_distinct [symmetric])

text \<open>
  C5, as the code has it. Stopping works through the document: from a reachable state
  that shows the pause form, \<^verbatim>\<open>play\<close> returns, shows the play form, clears the handle
  and leaves no periodic callback registered, so that no tick is scheduled any more (and
  in every reachable state without a handle none is registered). \<^verbatim>\<open>update_year\<close>
  itself reads neither the label nor the handle: whenever it is called it advances the
  year and, when it returns, has pushed the frames of the new year into both data
  sources; it never changes the label, the handle or the registered callbacks.
\<close>

theorem stop_unregisters_tick_unguarded:
  "(reachable tbl s \<and> btn_label s = label_pause \<longrightarrow>
      fst (play s) = None \<and> btn_label (snd (play s)) = label_play \<and>
      callback (snd (play s)) = None \<and> session_callbacks (snd (play s)) = []) \<and>
   (reachable tbl s \<and> callback s = None \<longrightarrow> session_callbacks s = []) \<and>
   year (snd (update_year s)) = wrap_year (year s + 1) \<and>
   (fst (update_year s) = None \<longrightarrow>
      create_df_main (us_company_map s) (wrap_year (year s + 1)) (market_cap_lower s) =
        Inr (main_source (snd (update_year s))) \<and>
      create_df_sub (us_company_map s) (wrap_year (year s + 1)) (city s)
          (market_cap_lower s) =
        Inr (sub_source (snd (update_year s)))) \<and>
   btn_label (snd (update_year s)) = btn_label s \<and>
   callback (snd (update_year s)) = callback s \<and>
   session_callbacks (snd (update_year s)) = session_callbacks s"
proof -
  have 1: "reachable tbl s \<and> btn_label s = label_pause \<longrightarrow>
      fst (play s) = None \<and> btn_label (snd (play s)) = label_play \<and>
      callback (snd (play s)) = None \<and> session_callbacks (snd (play s)) = []"
    using play_stops [of s] reachable_toggle_inv [of tbl s] by auto
  have 2: "reachable tbl s \<and> callback s = None \<longrightarrow> session_callbacks s = []"
    using reachable_toggle_inv [of tbl s] by (auto simp: toggle_inv_def)
  have 3: "fst (update_year s) = None \<longrightarrow>
      create_df_main (us_company_map s) (wrap_year (year s + 1)) (market_cap_lower s) =
        Inr (main_source (snd (update_year s))) \<and>
      create_df_sub (us_company_map s) (wrap_year (year s + 1)) (city s)
          (market_cap_lower s) =
        Inr (sub_source (snd (update_year s)))"
    using update_year_returns(4,5) [of s "snd (update_year s)"]
    by (cases "update_year s") auto
  show ?thesis using 1 2 3 by (simp add: update_year_frame)
qed

text \<open>The demonstration table: stopping after one click, the loaded state, and a call
  of \<^verbatim>\<open>update_year\<close> in the stopped state, which returns with the frames of 2019.\<close>

theorem stop_unregisters_tick_unguarded_witness:
  "\<exists>s0. init demo_map = Inr s0 \<and>
     reachable demo_map (run [Click] s0) \<and> btn_label (run [Click] s0) = label_pause \<and>
     callback (run [Click, Click] s0) = None \<and>
     session_callbacks (run [Click, Click] s0) = [] \<and>
     reachable demo_map s0 \<and> callback s0 = None \<and> session_callbacks s0 = [] \<and>
     fst (update_year (run [Click, Click] s0)) = None \<and>
     year (snd (update_year (run [Click, Click] s0))) = 2019 \<and>
     create_df_main demo_map 2019 0 =
       Inr (main_source (snd (update_year (run [Click, Click] s0)))) \<and>
     create_df_sub demo_map 2019 ''San Jose'' 0 =
       Inr (sub_source (snd (update_year (run [Click, Click] s0))))"
proof -
  obtain s0 where s0: "init demo_map = Inr s0" using demo_init by blast
  then have r: "reachable demo_map s0" by (rule reachable.loaded)
  have r1: "reachable demo_map (run [Click] s0)" using r by (rule reachable_run)
  have l1: "btn_label (run [Click] s0) = label_pause"
    using init_fields(5) [OF s0] by (simp add: play_def)
  have c: "callback s0 = None" using s0 by (rule init_fields)
  let ?s = "run [Click, Click] s0"
  have f: "us_company_map ?s = demo_map" "year ?s = 2022" "market_cap_lower ?s = 0"
    "city ?s = ''San Jose''"
    using init_fields(1,2,3,4) [OF s0] by (simp_all add: play_frame run_us_company_map)
  have u: "fst (update_year ?s) = None"
    using f by (simp add: update_year_def Let_def wrap_year_def demo_main_zero
        demo_sub_san_jose_zero del: run.simps)
  have "create_df_main (us_company_map ?s) (wrap_year (year ?s + 1)) (market_cap_lower ?s) =
        Inr (main_source (snd (update_year ?s))) \<and>
      create_df_sub (us_company_map ?s) (wrap_year (year ?s + 1)) (city ?s)
          (market_cap_lower ?s) =
        Inr (sub_source (snd (update_year ?s))) \<and>
      year (snd (update_year ?s)) = wrap_year (year ?s + 1)"
    using stop_unregisters_tick_unguarded [of demo_map ?s] u by blast
  then have t: "create_df_main demo_map 2019 0 = Inr (main_source (snd (update_year ?s))) \<and>
      create_df_sub demo_map 2019 ''San Jose'' 0 = Inr (sub_source (snd (update_year ?s))) \<and>
      year (snd (update_year ?s)) = 2019"
    by (simp only: f) (simp add: wrap_year_def)
  from stop_unregisters_tick_unguarded [of demo_map "run [Click] s0"]
    stop_unregisters_tick_unguarded [of demo_map s0] r r1 l1 c s0
  have "callback (run [Click, Click] s0) = None \<and>
     session_callbacks (run [Click, Click] s0) = [] \<and> session_callbacks s0 = []"
    by simp
  then show ?thesis using s0 r r1 l1 c u t by (intro exI [of _ s0]) blast
qed

text \<open>
  C5 as stated fails: after a click and a second click the animation is stopped (play
  form, no handle, year 2022), and a call of \<^verbatim>\<open>update_year\<close> in that state moves the
  year to 2019.
\<close>

theorem tick_after_stop_advances:
  "\<exists>s0. init demo_map = Inr s0 \<and>
     btn_label (run [Click, Click] s0) = label_play \<and>
     callback (run [Click, Click] s0) = None \<and>
     year (run [Click, Click] s0) = 2022 \<and>
     year (snd (update_year (run [Click, Click] s0))) = 2019"
proof -
  obtain s0 where s0: "init demo_map = Inr s0" using demo_init by blast
  have "btn_label (run [Click, Click] s0) = label_play \<and>
     callback (run [Click, Click] s0) = None \<and>
     year (run [Click, Click] s0) = 2022"
    using init_fields(2,5,6,7) [OF s0]
    by (simp add: play_def Let_def label_distinct [symmetric])
  then show ?thesis using s0
    by (intro exI [of _ s0]) (simp add: update_year_frame wrap_year_def)
qed

end
